theory Spec2Isabelle
  imports Main "HOL-Library.Word"
begin

unbundle bit_operations_syntax

section \<open>Strings, as the Go packages \<^verbatim>\<open>strings\<close> and \<^verbatim>\<open>fmt\<close> are used here\<close>

text \<open>
  A Go string is a byte sequence; it is modelled as \<^typ>\<open>string\<close>, one \<^typ>\<open>char\<close> per byte,
  so \<^verbatim>\<open>len(s)\<close> is \<^term>\<open>length s\<close>. \<^verbatim>\<open>strings.ToLower\<close> is modelled on the ASCII letters
  (the mapping Go applies to every byte below 128); the case mapping of code points beyond
  ASCII is not modelled.
\<close>

definition to_lower_char :: "char \<Rightarrow> char" where
  "to_lower_char c =
     (if (65::nat) \<le> of_char c \<and> of_char c \<le> (90::nat) then char_of (of_char c + (32::nat)) else c)"

definition ToLower :: "string \<Rightarrow> string" where
  "ToLower s = map to_lower_char s"

definition ToUpper_char :: "char \<Rightarrow> char" where
  "ToUpper_char c =
     (if (97::nat) \<le> of_char c \<and> of_char c \<le> (122::nat) then char_of (of_char c - (32::nat)) else c)"

definition ToUpper :: "string \<Rightarrow> string" where
  "ToUpper s = map ToUpper_char s"

fun HasPrefix :: "string \<Rightarrow> string \<Rightarrow> bool" where
  "HasPrefix s [] = True"
| "HasPrefix [] (p # ps) = False"
| "HasPrefix (c # cs) (p # ps) = (c = p \<and> HasPrefix cs ps)"

text \<open>\<^verbatim>\<open>strings.Contains(s, substr)\<close>: some suffix of \<open>s\<close> starts with \<open>substr\<close>.\<close>

fun Contains :: "string \<Rightarrow> string \<Rightarrow> bool" where
  "Contains [] sub = (sub = [])"
| "Contains (c # cs) sub = (HasPrefix (c # cs) sub \<or> Contains cs sub)"

text \<open>\<^verbatim>\<open>strings.Join(elems, sep)\<close>.\<close>

fun Join :: "string list \<Rightarrow> string \<Rightarrow> string" where
  "Join [] sep = []"
| "Join [x] sep = x"
| "Join (x # y # ys) sep = x @ sep @ Join (y # ys) sep"

text \<open>
  \<^verbatim>\<open>strings.Fields(s)\<close>: the maximal runs of non-space bytes. The ASCII white space of
  \<^verbatim>\<open>unicode.IsSpace\<close> is tab, line feed, vertical tab, form feed, carriage return and space.
\<close>

definition isSpace :: "char \<Rightarrow> bool" where
  "isSpace c = (of_char c = (32::nat) \<or> ((9::nat) \<le> of_char c \<and> of_char c \<le> (13::nat)))"

fun fields_from :: "string \<Rightarrow> string \<Rightarrow> string list" where
  "fields_from cur [] = (if cur = [] then [] else [cur])"
| "fields_from cur (c # cs) =
     (if isSpace c then (if cur = [] then fields_from [] cs else cur # fields_from [] cs)
      else fields_from (cur @ [c]) cs)"

definition Fields :: "string \<Rightarrow> string list" where
  "Fields s = fields_from [] s"

text \<open>
  \<^verbatim>\<open>fmt.Sprintf(format, args...)\<close> for the formats of this repository, whose only verb is
  \<^verbatim>\<open>%s\<close>: each \<^verbatim>\<open>%s\<close> is replaced by the next argument (by Go's missing-argument marker when
  the arguments have run out); every other byte is copied.
\<close>

fun Sprintf :: "string \<Rightarrow> string list \<Rightarrow> string" where
  "Sprintf [] args = []"
| "Sprintf [c] args = [c]"
| "Sprintf (c # d # rest) args =
     (if c = CHR ''%'' \<and> d = CHR ''s''
      then (case args of
              [] \<Rightarrow> ''%!s(MISSING)'' @ Sprintf rest []
            | a # as \<Rightarrow> a @ Sprintf rest as)
      else c # Sprintf (d # rest) args)"

text \<open>The decimal rendering of an integer (\<^verbatim>\<open>%d\<close>, and \<^verbatim>\<open>%v\<close> on an \<^verbatim>\<open>int\<close>).\<close>

definition digit_char :: "nat \<Rightarrow> char" where
  "digit_char d = char_of (48 + d)"

fun nat_decimal :: "nat \<Rightarrow> string" where
  "nat_decimal n = (if n < 10 then [digit_char n] else nat_decimal (n div 10) @ [digit_char (n mod 10)])"

definition Itoa :: "int \<Rightarrow> string" where
  "Itoa i = (if i < 0 then CHR ''-'' # nat_decimal (nat (- i)) else nat_decimal (nat i))"

section \<open>Time\<close>

text \<open>
  A \<^verbatim>\<open>time.Time\<close> is the number of nanoseconds since the Unix epoch and a
  \<^verbatim>\<open>time.Duration\<close> a number of nanoseconds, both as unbounded \<^typ>\<open>int\<close> (the 64-bit
  range is not reached by the durations used here). \<^verbatim>\<open>t.Format(time.RFC3339)\<close> is modelled
  for the UTC zone and the years 0 to 9999: \<^verbatim>\<open>2006-01-02T15:04:05Z\<close>, the date computed from
  the day number by the usual civil-calendar arithmetic.
\<close>

type_synonym time = int
type_synonym duration = int

definition Second :: duration where "Second = 1000000000"
definition Minute :: duration where "Minute = 60 * Second"
definition Hour :: duration where "Hour = 60 * Minute"

definition pad2 :: "int \<Rightarrow> string" where
  "pad2 n = (if n < 10 then CHR ''0'' # Itoa n else Itoa n)"

definition pad4 :: "int \<Rightarrow> string" where
  "pad4 n = (if n < 10 then ''000'' @ Itoa n else if n < 100 then ''00'' @ Itoa n
             else if n < 1000 then CHR ''0'' # Itoa n else Itoa n)"

definition civil_from_days :: "int \<Rightarrow> int \<times> int \<times> int" where
  "civil_from_days z0 =
     (let z = z0 + 719468;
          era = z div 146097;
          doe = z - era * 146097;
          yoe = (doe - doe div 1460 + doe div 36524 - doe div 146096) div 365;
          doy = doe - (365 * yoe + yoe div 4 - yoe div 100);
          mp = (5 * doy + 2) div 153;
          d = doy - (153 * mp + 2) div 5 + 1;
          m = (if mp < 10 then mp + 3 else mp - 9);
          y = yoe + era * 400 + (if m \<le> 2 then 1 else 0)
      in (y, m, d))"

definition FormatRFC3339 :: "time \<Rightarrow> string" where
  "FormatRFC3339 t =
     (let secs = t div 1000000000;
          days = secs div 86400;
          rem = secs mod 86400
      in case civil_from_days days of (y, m, d) \<Rightarrow>
           pad4 y @ ''-'' @ pad2 m @ ''-'' @ pad2 d @ ''T'' @
           pad2 (rem div 3600) @ '':'' @ pad2 (rem mod 3600 div 60) @ '':'' @ pad2 (rem mod 60) @ ''Z'')"

section \<open>Log entries\<close>

text \<open>
  \<^verbatim>\<open>LogEntry\<close> (list_log_entries.go) is the record the tools return. Its \<^verbatim>\<open>Resource\<close> map
  has the keys \<^verbatim>\<open>type\<close> and \<^verbatim>\<open>labels\<close> when it is set; a Go string map is an association
  list (no key twice, order of no meaning), \<^verbatim>\<open>nil\<close> being the empty one; the JSON payload map
  is represented by the text \<^verbatim>\<open>json.Marshal\<close> gives for it.
\<close>

record MonitoredResource =
  Type :: string
  Labels :: "(string \<times> string) list"

record LogEntry =
  Timestamp :: string
  Severity :: string
  LogName :: string
  Resource :: "MonitoredResource option"
  Labels :: "(string \<times> string) list"
  TextPayload :: string
  JSONPayload :: "string option"
  InsertID :: string
  TraceID :: string

section \<open>The result cache (cache.go)\<close>

record CacheEntry =
  Data :: "LogEntry list"
  Timestamp :: time
  TTL :: duration

type_synonym LogCache = "string \<rightharpoonup> CacheEntry"

definition NewLogCache :: LogCache where
  "NewLogCache = Map.empty"

text \<open>
  \<^verbatim>\<open>Get\<close> reads the clock (\<open>now\<close>) and the map under the read lock. It returns the pair of the
  source and, as every operation on the cache does here, the cache after the call.
\<close>

definition LogCache_Get :: "LogCache \<Rightarrow> time \<Rightarrow> string \<Rightarrow> (LogEntry list \<times> bool) \<times> LogCache" where
  "LogCache_Get c now key =
     (case c key of
        None \<Rightarrow> (([], False), c)
      | Some entry \<Rightarrow>
          if now - CacheEntry.Timestamp entry > TTL entry then (([], False), c)
          else ((Data entry, True), c))"

definition LogCache_Set :: "LogCache \<Rightarrow> time \<Rightarrow> string \<Rightarrow> LogEntry list \<Rightarrow> duration \<Rightarrow> LogCache" where
  "LogCache_Set c now key data ttl =
     c(key \<mapsto> \<lparr>Data = data, CacheEntry.Timestamp = now, TTL = ttl\<rparr>)"

text \<open>One pass of the sweep that \<^verbatim>\<open>cleanup\<close> runs at every tick.\<close>

definition LogCache_cleanup_pass :: "LogCache \<Rightarrow> time \<Rightarrow> LogCache" where
  "LogCache_cleanup_pass c now =
     (\<lambda>key. case c key of
               None \<Rightarrow> None
             | Some entry \<Rightarrow> if now - CacheEntry.Timestamp entry > TTL entry then None else Some entry)"

section \<open>The filter builder (filter_builder.go)\<close>

record FilterBuilder =
  filters :: "string list"

definition NewFilterBuilder :: FilterBuilder where
  "NewFilterBuilder = \<lparr>filters = []\<rparr>"

definition append_filter :: "FilterBuilder \<Rightarrow> string \<Rightarrow> FilterBuilder" where
  "append_filter fb f = fb\<lparr>filters := filters fb @ [f]\<rparr>"

definition AddTimeRange :: "FilterBuilder \<Rightarrow> string \<Rightarrow> string \<Rightarrow> FilterBuilder" where
  "AddTimeRange fb startTime endTime =
     (let fb1 = (if startTime \<noteq> [] then append_filter fb (Sprintf ''timestamp >= \"%s\"'' [startTime]) else fb)
      in if endTime \<noteq> [] then append_filter fb1 (Sprintf ''timestamp <= \"%s\"'' [endTime]) else fb1)"

definition AddSeverity :: "FilterBuilder \<Rightarrow> string \<Rightarrow> FilterBuilder" where
  "AddSeverity fb severity =
     (if severity \<noteq> [] then append_filter fb (Sprintf ''severity >= %s'' [ToUpper severity]) else fb)"

definition AddCloudRunService :: "FilterBuilder \<Rightarrow> string \<Rightarrow> FilterBuilder" where
  "AddCloudRunService fb serviceName =
     (if serviceName \<noteq> []
      then append_filter (append_filter fb ''resource.type=\"cloud_run_revision\"'')
             (Sprintf ''resource.labels.service_name=\"%s\"'' [serviceName])
      else fb)"

definition AddLogName :: "FilterBuilder \<Rightarrow> string \<Rightarrow> FilterBuilder" where
  "AddLogName fb logName =
     (if logName \<noteq> [] then append_filter fb (Sprintf ''logName=\"%s\"'' [logName]) else fb)"

definition AddKeywords :: "FilterBuilder \<Rightarrow> string \<Rightarrow> FilterBuilder" where
  "AddKeywords fb keywords =
     (if keywords \<noteq> []
      then (let fb1 = (if Contains keywords ''error'' \<or> Contains keywords ''ERROR''
                       then append_filter fb ''severity >= ERROR'' else fb)
            in append_filter fb1
                 (Sprintf ''(textPayload:\"%s\" OR jsonPayload.message:\"%s\")'' [keywords, keywords]))
      else fb)"

text \<open>The scan for a time filter: any accumulated clause that contains \<^verbatim>\<open>timestamp\<close>.\<close>

fun hasTimeFilter :: "string list \<Rightarrow> bool" where
  "hasTimeFilter [] = False"
| "hasTimeFilter (f # fs) = (if Contains f ''timestamp'' then True else hasTimeFilter fs)"

definition AddDefaultTimeConstraint :: "FilterBuilder \<Rightarrow> time \<Rightarrow> FilterBuilder" where
  "AddDefaultTimeConstraint fb now =
     (if \<not> hasTimeFilter (filters fb)
      then append_filter fb (Sprintf ''timestamp >= \"%s\"'' [FormatRFC3339 (now + (- 24) * Hour)])
      else fb)"

definition Build :: "FilterBuilder \<Rightarrow> string" where
  "Build fb = (if length (filters fb) = 0 then [] else Join (filters fb) '' AND '')"

definition Reset :: "FilterBuilder \<Rightarrow> FilterBuilder" where
  "Reset fb = fb\<lparr>filters := []\<rparr>"

section \<open>The search tool's filter compiler (search_logs.go)\<close>

record SearchLogsArgs =
  Query :: string
  StartTime :: string
  EndTime :: string
  Severity :: string
  Resource :: string
  LogName :: string
  PageSize :: int
  OrderBy :: string

text \<open>
  The loop of \<^verbatim>\<open>parseQueryForOptimizedFilters\<close> over the fields of the query: the first
  part with a hyphen and more than five bytes is added as the Cloud Run service, and the
  loop breaks.
\<close>

fun service_name_loop :: "string list \<Rightarrow> FilterBuilder \<Rightarrow> FilterBuilder" where
  "service_name_loop [] fb = fb"
| "service_name_loop (part # parts) fb =
     (if Contains part ''-'' \<and> length part > 5 then AddCloudRunService fb part
      else service_name_loop parts fb)"

definition parseQueryForOptimizedFilters :: "string \<Rightarrow> FilterBuilder \<Rightarrow> FilterBuilder" where
  "parseQueryForOptimizedFilters query0 fb =
     (let query = ToLower query0;
          fb1 = (if Contains query ''casone'' \<or> Contains query ''tenant'' \<or> Contains query ''api''
                 then service_name_loop (Fields query) fb else fb)
      in AddKeywords fb1 query)"

definition buildOptimizedFilter :: "time \<Rightarrow> SearchLogsArgs \<Rightarrow> string" where
  "buildOptimizedFilter now params =
     (let fb0 = NewFilterBuilder;
          fb1 = AddTimeRange fb0 (StartTime params) (EndTime params);
          fb2 = AddSeverity fb1 (SearchLogsArgs.Severity params);
          fb3 = (if SearchLogsArgs.Resource params \<noteq> []
                 then append_filter fb2 (Sprintf ''resource.type=\"%s\"'' [SearchLogsArgs.Resource params])
                 else fb2);
          fb4 = AddLogName fb3 (SearchLogsArgs.LogName params);
          fb5 = (if Query params \<noteq> [] then parseQueryForOptimizedFilters (Query params) fb4 else fb4);
          fb6 = AddDefaultTimeConstraint fb5 now
      in Build fb6)"

section \<open>Errors\<close>

text \<open>
  A Go \<^verbatim>\<open>error\<close> is observed by this code in two ways only: through \<^verbatim>\<open>status.FromError\<close>,
  which finds the gRPC status the error carries (if any), and through its text,
  \<^verbatim>\<open>err.Error()\<close>. An error value is the record of the two.
\<close>

datatype Code = OK | Canceled | Unknown | InvalidArgument | DeadlineExceeded | NotFound
  | AlreadyExists | PermissionDenied | ResourceExhausted | FailedPrecondition | Aborted
  | OutOfRange | Unimplemented | Internal | Unavailable | DataLoss | Unauthenticated

record GoError =
  status :: "Code option"
  Error :: string

text \<open>\<^verbatim>\<open>fmt.Errorf\<close> with a format that wraps nothing: a plain error with that text.\<close>

definition Errorf :: "string \<Rightarrow> GoError" where
  "Errorf msg = \<lparr>status = None, Error = msg\<rparr>"

text \<open>
  \<^verbatim>\<open>fmt.Errorf("prefix: %w", err)\<close>: the text is prefixed, and the wrapped error (with its
  gRPC status) stays reachable by unwrapping, which is how \<^verbatim>\<open>status.FromError\<close> looks for it.
  Wrapping \<^verbatim>\<open>nil\<close> gives Go's marker for a \<^verbatim>\<open>%w\<close> operand that is no error.
\<close>

definition Errorf_w :: "string \<Rightarrow> GoError option \<Rightarrow> GoError" where
  "Errorf_w prefix err =
     (case err of
        None \<Rightarrow> \<lparr>status = None, Error = prefix @ ''%!w(<nil>)''\<rparr>
      | Some e \<Rightarrow> \<lparr>status = status e, Error = prefix @ Error e\<rparr>)"

section \<open>The preset catalog (preset_queries.go)\<close>

record PresetQuery =
  Name :: string
  Description :: string
  Filter :: string
  PageSize :: int

definition CommonPresetQueries :: "string \<rightharpoonup> PresetQuery" where
  "CommonPresetQueries =
     [''cloud_run_errors'' \<mapsto>
        \<lparr>Name = ''cloud_run_errors'',
         Description = ''Get recent errors from Cloud Run services'',
         Filter = ''resource.type=\"cloud_run_revision\" AND severity>=ERROR AND timestamp>=\"%s\"'',
         PageSize = 10\<rparr>,
      ''cloud_run_service_errors'' \<mapsto>
        \<lparr>Name = ''cloud_run_service_errors'',
         Description = ''Get errors for specific Cloud Run service'',
         Filter = ''resource.type=\"cloud_run_revision\" AND resource.labels.service_name=\"%s\" AND severity>=ERROR AND timestamp>=\"%s\"'',
         PageSize = 15\<rparr>,
      ''recent_logs'' \<mapsto>
        \<lparr>Name = ''recent_logs'',
         Description = ''Get recent logs from last hour'',
         Filter = ''timestamp>=\"%s\"'',
         PageSize = 20\<rparr>,
      ''high_severity'' \<mapsto>
        \<lparr>Name = ''high_severity'',
         Description = ''Get critical and error logs from last 6 hours'',
         Filter = ''severity>=ERROR AND timestamp>=\"%s\"'',
         PageSize = 10\<rparr>]"

definition GetPresetQuery :: "time \<Rightarrow> string \<Rightarrow> string list \<Rightarrow> string \<times> int \<times> GoError option" where
  "GetPresetQuery now queryName params =
     (case CommonPresetQueries queryName of
        None \<Rightarrow> ([], 0, Some (Errorf (Sprintf ''preset query '%s' not found'' [queryName])))
      | Some preset \<Rightarrow>
          if queryName = ''cloud_run_errors'' then
            (let defaultTime = FormatRFC3339 (now + (- 1) * Hour)
             in (Sprintf (Filter preset) [defaultTime], PresetQuery.PageSize preset, None))
          else if queryName = ''cloud_run_service_errors'' then
            (case params of
               [] \<Rightarrow> ([], 0, Some (Errorf ''service name parameter required for cloud_run_service_errors''))
             | serviceName # _ \<Rightarrow>
                 (let defaultTime = FormatRFC3339 (now + (- 2) * Hour)
                  in (Sprintf (Filter preset) [serviceName, defaultTime], PresetQuery.PageSize preset, None)))
          else if queryName = ''recent_logs'' then
            (let defaultTime = FormatRFC3339 (now + (- 1) * Hour)
             in (Sprintf (Filter preset) [defaultTime], PresetQuery.PageSize preset, None))
          else if queryName = ''high_severity'' then
            (let defaultTime = FormatRFC3339 (now + (- 6) * Hour)
             in (Sprintf (Filter preset) [defaultTime], PresetQuery.PageSize preset, None))
          else (Filter preset, PresetQuery.PageSize preset, None))"

section \<open>Entries of the remote store and the world outside\<close>

text \<open>
  \<^verbatim>\<open>logging.Entry\<close>, as far as the tools read it. The severity is held by its name
  (\<^verbatim>\<open>entry.Severity.String()\<close>); the payload is a string, a JSON map (held, as in
  \<open>LogEntry\<close>, by the text \<^verbatim>\<open>json.Marshal\<close> gives for it) or a value of another type.
\<close>

datatype Payload = PayloadString string | PayloadMap string | PayloadOther

record Entry =
  Timestamp :: time
  Severity :: string
  LogName :: string
  InsertID :: string
  Trace :: string
  Resource :: "MonitoredResource option"
  Labels :: "(string \<times> string) list"
  Payload :: Payload

text \<open>
  What \<^verbatim>\<open>iter.Next()\<close> yields: an entry or an error; the end of the list is
  \<^verbatim>\<open>iterator.Done\<close>.
\<close>

datatype IterItem = Item Entry | IterError GoError

text \<open>
  The world the tools act on: the clock, and the remote store as a test double. Each call of
  \<^verbatim>\<open>client.Entries\<close> is recorded with its filter and answered by the next scripted response
  (the time the call takes and the items the iterator yields), by an empty iterator once the
  script has run out. The timeout of 30 seconds on the context shows as an iterator error in
  the script.
\<close>

record World =
  clock :: time
  responses :: "(duration \<times> IterItem list) list"
  requests :: "string list"

definition Entries :: "World \<Rightarrow> string \<Rightarrow> IterItem list \<times> World" where
  "Entries w filter' =
     (case responses w of
        [] \<Rightarrow> ([], w\<lparr>requests := requests w @ [filter']\<rparr>)
      | (latency, items) # rest \<Rightarrow>
          (items, w\<lparr>clock := clock w + latency, responses := rest, requests := requests w @ [filter']\<rparr>))"

definition sleep :: "duration \<Rightarrow> World \<Rightarrow> World" where
  "sleep d w = w\<lparr>clock := clock w + d\<rparr>"

text \<open>The conversion of an entry that both fetch loops do before they append it.\<close>

definition toLogEntry :: "Entry \<Rightarrow> LogEntry" where
  "toLogEntry entry =
     \<lparr>LogEntry.Timestamp = FormatRFC3339 (Entry.Timestamp entry),
      Severity = Entry.Severity entry,
      LogName = Entry.LogName entry,
      Resource = Entry.Resource entry,
      Labels = Entry.Labels entry,
      TextPayload = (case Payload entry of PayloadString p \<Rightarrow> p | _ \<Rightarrow> []),
      JSONPayload = (case Payload entry of PayloadMap m \<Rightarrow> Some m | _ \<Rightarrow> None),
      InsertID = Entry.InsertID entry,
      TraceID = Trace entry\<rparr>"

section \<open>The retry coordinator (the rate limiter of list_log_entries.go)\<close>

record RateLimiter =
  backoffDuration :: duration
  maxRetries :: int

definition NewRateLimiter :: RateLimiter where
  "NewRateLimiter = \<lparr>backoffDuration = 1 * Second, maxRetries = 3\<rparr>"

definition isQuotaExceededError :: "GoError \<Rightarrow> bool" where
  "isQuotaExceededError err =
     (if status err = Some ResourceExhausted then True
      else (let errStr = ToLower (Error err)
            in Contains errStr ''quota exceeded'' \<or> Contains errStr ''rate limit'' \<or>
               Contains errStr ''resource exhausted''))"

text \<open>
  \<open>calculateBackoff\<close> multiplies the base by \<^verbatim>\<open>math.Pow(2, attempt)\<close>, which is the exact power
  of two for the attempt numbers 0, 1, 2, ... of the loop, and adds as jitter the float
  product \<^verbatim>\<open>float64(backoff) * 0.1\<close> truncated to a duration; for a backoff from 0 up to
  \<open>2^53\<close> nanoseconds that truncation is the integer quotient by 10.
\<close>

definition calculateBackoff :: "RateLimiter \<Rightarrow> int \<Rightarrow> duration" where
  "calculateBackoff r attempt =
     (let backoff = backoffDuration r * 2 ^ nat attempt;
          jitter = backoff div 10
      in backoff + jitter)"

text \<open>
  The operation is a closure: it reads and writes the variables it captured (\<open>'v\<close>) and acts
  on the world. \<open>ExecuteWithBackoff\<close> returns the error (\<open>None\<close> for \<^verbatim>\<open>nil\<close>), the state it
  leaves and the trace of what it did: each call of the operation and each \<^verbatim>\<open>time.Sleep\<close>.
\<close>

datatype event = Invoke | Sleep duration

function backoff_loop ::
  "RateLimiter \<Rightarrow> ('v \<times> World \<Rightarrow> GoError option \<times> 'v \<times> World) \<Rightarrow> int \<Rightarrow> GoError option \<Rightarrow>
   'v \<times> World \<Rightarrow> event list \<Rightarrow> GoError option \<times> ('v \<times> World) \<times> event list" where
  "backoff_loop r operation attempt lastErr s tr =
     (if attempt \<le> maxRetries r then
        (case operation s of
           (None, s') \<Rightarrow> (None, s', tr @ [Invoke])
         | (Some err, (v', w')) \<Rightarrow>
             if \<not> isQuotaExceededError err then (Some err, (v', w'), tr @ [Invoke])
             else if attempt < maxRetries r
             then (let backoffTime = calculateBackoff r attempt
                   in backoff_loop r operation (attempt + 1) (Some err) (v', sleep backoffTime w')
                        (tr @ [Invoke, Sleep backoffTime]))
             else backoff_loop r operation (attempt + 1) (Some err) (v', w') (tr @ [Invoke]))
      else (Some (Errorf_w ''max retries exceeded: '' lastErr), s, tr))"
  by pat_completeness auto
termination
  by (relation "measure (\<lambda>(r, operation, attempt, lastErr, s, tr). nat (maxRetries r + 1 - attempt))") auto

declare backoff_loop.simps [simp del]

definition ExecuteWithBackoff ::
  "RateLimiter \<Rightarrow> ('v \<times> World \<Rightarrow> GoError option \<times> 'v \<times> World) \<Rightarrow> 'v \<times> World \<Rightarrow>
   GoError option \<times> ('v \<times> World) \<times> event list" where
  "ExecuteWithBackoff r operation s = backoff_loop r operation 0 None s []"

section \<open>MD5 (RFC 1321), as \<^verbatim>\<open>crypto/md5\<close> computes it\<close>

definition md5_shifts :: "nat list" where
  "md5_shifts =
     [7, 12, 17, 22, 7, 12, 17, 22, 7, 12, 17, 22, 7, 12, 17, 22,
      5, 9, 14, 20, 5, 9, 14, 20, 5, 9, 14, 20, 5, 9, 14, 20,
      4, 11, 16, 23, 4, 11, 16, 23, 4, 11, 16, 23, 4, 11, 16, 23,
      6, 10, 15, 21, 6, 10, 15, 21, 6, 10, 15, 21, 6, 10, 15, 21]"

definition md5_K :: "32 word list" where
  "md5_K =
     [0xd76aa478, 0xe8c7b756, 0x242070db, 0xc1bdceee,
      0xf57c0faf, 0x4787c62a, 0xa8304613, 0xfd469501,
      0x698098d8, 0x8b44f7af, 0xffff5bb1, 0x895cd7be,
      0x6b901122, 0xfd987193, 0xa679438e, 0x49b40821,
      0xf61e2562, 0xc040b340, 0x265e5a51, 0xe9b6c7aa,
      0xd62f105d, 0x02441453, 0xd8a1e681, 0xe7d3fbc8,
      0x21e1cde6, 0xc33707d6, 0xf4d50d87, 0x455a14ed,
      0xa9e3e905, 0xfcefa3f8, 0x676f02d9, 0x8d2a4c8a,
      0xfffa3942, 0x8771f681, 0x6d9d6122, 0xfde5380c,
      0xa4beea44, 0x4bdecfa9, 0xf6bb4b60, 0xbebfbc70,
      0x289b7ec6, 0xeaa127fa, 0xd4ef3085, 0x04881d05,
      0xd9d4d039, 0xe6db99e5, 0x1fa27cf8, 0xc4ac5665,
      0xf4292244, 0x432aff97, 0xab9423a7, 0xfc93a039,
      0x655b59c3, 0x8f0ccc92, 0xffeff47d, 0x85845dd1,
      0x6fa87e4f, 0xfe2ce6e0, 0xa3014314, 0x4e0811a1,
      0xf7537e82, 0xbd3af235, 0x2ad7d2bb, 0xeb86d391]"

type_synonym md5_state = "32 word \<times> 32 word \<times> 32 word \<times> 32 word"

definition md5_init :: md5_state where
  "md5_init = (0x67452301, 0xefcdab89, 0x98badcfe, 0x10325476)"

definition md5_round :: "32 word list \<Rightarrow> nat \<Rightarrow> md5_state \<Rightarrow> md5_state" where
  "md5_round M i st =
     (case st of (a, b, c, d) \<Rightarrow>
        (let f = (if i < 16 then (b AND c) OR (NOT b AND d)
                  else if i < 32 then (d AND b) OR (NOT d AND c)
                  else if i < 48 then b XOR c XOR d
                  else c XOR (b OR NOT d));
             g = (if i < 16 then i
                  else if i < 32 then (5 * i + 1) mod 16
                  else if i < 48 then (3 * i + 5) mod 16
                  else (7 * i) mod 16);
             f' = f + a + md5_K ! i + M ! g
         in (d, b + word_rotl (md5_shifts ! i) f', b, c)))"

definition md5_block :: "md5_state \<Rightarrow> 32 word list \<Rightarrow> md5_state" where
  "md5_block st M =
     (case st of (a0, b0, c0, d0) \<Rightarrow>
        (case fold (md5_round M) [0..<64] st of (a, b, c, d) \<Rightarrow>
           (a0 + a, b0 + b, c0 + c, d0 + d)))"

definition le_bytes :: "nat \<Rightarrow> nat \<Rightarrow> nat list" where
  "le_bytes k n = map (\<lambda>i. (n div 256 ^ i) mod 256) [0..<k]"

definition md5_pad :: "nat list \<Rightarrow> nat list" where
  "md5_pad bs =
     bs @ [128] @ replicate ((119 - length bs mod 64) mod 64) 0 @ le_bytes 8 ((8 * length bs) mod 2 ^ 64)"

fun le_words :: "nat list \<Rightarrow> 32 word list" where
  "le_words (b0 # b1 # b2 # b3 # rest) =
     word_of_nat (b0 + 256 * b1 + 65536 * b2 + 16777216 * b3) # le_words rest"
| "le_words _ = []"

function md5_blocks :: "md5_state \<Rightarrow> 32 word list \<Rightarrow> md5_state" where
  "md5_blocks st ws = (if length ws < 16 then st else md5_blocks (md5_block st (take 16 ws)) (drop 16 ws))"
  by pat_completeness auto
termination
  by (relation "measure (\<lambda>(st, ws). length ws)") auto

declare md5_blocks.simps [simp del]

text \<open>\<^verbatim>\<open>md5.Sum\<close>: the 16 bytes of the digest.\<close>

definition md5_Sum :: "string \<Rightarrow> nat list" where
  "md5_Sum s =
     (case md5_blocks md5_init (le_words (md5_pad (map of_char s))) of (a, b, c, d) \<Rightarrow>
        le_bytes 4 (unat a) @ le_bytes 4 (unat b) @ le_bytes 4 (unat c) @ le_bytes 4 (unat d))"

text \<open>\<^verbatim>\<open>fmt.Sprintf("%x", hash)\<close> on a byte array: two lower-case hexadecimal digits a byte.\<close>

definition hex_digit :: "nat \<Rightarrow> char" where
  "hex_digit d = (if d < 10 then char_of (48 + d) else char_of (87 + d))"

definition hex_bytes :: "nat list \<Rightarrow> string" where
  "hex_bytes bs = concat (map (\<lambda>b. [hex_digit (b div 16), hex_digit (b mod 16)]) bs)"

section \<open>Cache keys (cache.go)\<close>

record ListLogEntriesArgs =
  Filter :: string
  PageSize :: int
  OrderBy :: string

record PresetQueryArgs =
  QueryName :: string
  Parameters :: "string list"

text \<open>
  \<open>GenerateKey\<close> takes any value; the three tools pass their argument structs. The key is the
  hexadecimal MD5 digest of the \<^verbatim>\<open>%+v\<close> rendering of the struct: the fields in order, each as
  \<^verbatim>\<open>Name:value\<close>, separated by spaces and enclosed in braces, a string written as it is, an
  integer in decimal, a string slice as its elements separated by spaces in brackets.
\<close>

datatype Request =
  SearchRequest SearchLogsArgs
| ListRequest ListLogEntriesArgs
| PresetRequest PresetQueryArgs

fun format_plus_v :: "Request \<Rightarrow> string" where
  "format_plus_v (SearchRequest p) =
     ''{Query:'' @ Query p @ '' StartTime:'' @ StartTime p @ '' EndTime:'' @ EndTime p @
     '' Severity:'' @ SearchLogsArgs.Severity p @ '' Resource:'' @ SearchLogsArgs.Resource p @
     '' LogName:'' @ SearchLogsArgs.LogName p @ '' PageSize:'' @ Itoa (SearchLogsArgs.PageSize p) @
     '' OrderBy:'' @ SearchLogsArgs.OrderBy p @ ''}''"
| "format_plus_v (ListRequest p) =
     ''{Filter:'' @ ListLogEntriesArgs.Filter p @ '' PageSize:'' @ Itoa (ListLogEntriesArgs.PageSize p) @
     '' OrderBy:'' @ ListLogEntriesArgs.OrderBy p @ ''}''"
| "format_plus_v (PresetRequest p) =
     ''{QueryName:'' @ QueryName p @ '' Parameters:['' @ Join (Parameters p) '' '' @ '']}''"

definition GenerateKey :: "Request \<Rightarrow> string" where
  "GenerateKey params = hex_bytes (md5_Sum (format_plus_v params))"

section \<open>The list tool (list_log_entries.go)\<close>

text \<open>
  The fetch loop: it stops when \<open>count\<close> has reached the page size, when the iterator is
  done, or with the wrapped error of the iterator.
\<close>

fun listLogEntries_loop :: "int \<Rightarrow> IterItem list \<Rightarrow> LogEntry list \<Rightarrow> int \<Rightarrow> GoError + LogEntry list" where
  "listLogEntries_loop pageSize [] entries count = Inr entries"
| "listLogEntries_loop pageSize (IterError err # rest) entries count =
     (if count \<ge> pageSize then Inr entries
      else Inl (Errorf_w ''failed to iterate log entries: '' (Some err)))"
| "listLogEntries_loop pageSize (Item entry # rest) entries count =
     (if count \<ge> pageSize then Inr entries
      else listLogEntries_loop pageSize rest (entries @ [toLogEntry entry]) (count + 1))"

definition listLogEntries :: "World \<Rightarrow> ListLogEntriesArgs \<Rightarrow> (GoError + LogEntry list) \<times> World" where
  "listLogEntries w params =
     (case Entries w (ListLogEntriesArgs.Filter params) of
        (items, w') \<Rightarrow> (listLogEntries_loop (ListLogEntriesArgs.PageSize params) items [] 0, w'))"

text \<open>
  The page-size policy at the head of both \<open>Execute\<close> methods: 10 when the page size is 0,
  then at most 20.
\<close>

definition effectivePageSize :: "int \<Rightarrow> int" where
  "effectivePageSize pageSize =
     (let p = (if pageSize = 0 then 10 else pageSize)
      in if p > 20 then 20 else p)"

text \<open>
  What a tool returns. \<open>Content\<close> holds the value whose rendering (the text itself, or
  \<^verbatim>\<open>json.MarshalIndent\<close> of a map or of the entries) is the text of the result; the decoding of
  the arguments into the argument struct and the encoding of the result are not modelled.
\<close>

datatype JSONValue = JSONString string | JSONNumber int | JSONBool bool | JSONEntries "LogEntry list"

datatype Body = Text string | Object "string \<rightharpoonup> JSONValue" | EntryArray "LogEntry list"

record CallToolResult =
  Content :: Body
  IsError :: bool

record ListLogEntriesTools =
  cache :: LogCache
  rateLimiter :: RateLimiter

definition NewListLogEntriesTools :: ListLogEntriesTools where
  "NewListLogEntriesTools = \<lparr>cache = NewLogCache, rateLimiter = NewRateLimiter\<rparr>"

text \<open>The closure handed to \<open>ExecuteWithBackoff\<close>; it assigns the captured \<open>entries\<close>.\<close>

definition list_operation ::
  "ListLogEntriesArgs \<Rightarrow> LogEntry list \<times> World \<Rightarrow> GoError option \<times> LogEntry list \<times> World" where
  "list_operation params s =
     (case s of (entries, w) \<Rightarrow>
        (case listLogEntries w params of
           (Inl err, w') \<Rightarrow> (Some err, ([], w'))
         | (Inr es, w') \<Rightarrow> (None, (es, w'))))"

text \<open>The defaults that \<open>Execute\<close> sets in the decoded arguments before anything else.\<close>

definition list_defaults :: "ListLogEntriesArgs \<Rightarrow> ListLogEntriesArgs" where
  "list_defaults params0 =
     (let params1 = params0\<lparr>ListLogEntriesArgs.PageSize := effectivePageSize (ListLogEntriesArgs.PageSize params0)\<rparr>
      in if ListLogEntriesArgs.OrderBy params1 = []
         then params1\<lparr>ListLogEntriesArgs.OrderBy := ''timestamp desc''\<rparr> else params1)"

definition ListLogEntriesTools_Execute ::
  "ListLogEntriesTools \<Rightarrow> World \<Rightarrow> ListLogEntriesArgs \<Rightarrow> CallToolResult \<times> ListLogEntriesTools \<times> World" where
  "ListLogEntriesTools_Execute t w params0 =
     (let params = list_defaults params0;
          cacheKey = GenerateKey (ListRequest params)
      in case LogCache_Get (ListLogEntriesTools.cache t) (clock w) cacheKey of
           ((cachedEntries, True), c) \<Rightarrow>
             (\<lparr>Content = EntryArray cachedEntries, IsError = False\<rparr>,
              t\<lparr>ListLogEntriesTools.cache := c\<rparr>, w)
         | ((cachedEntries, False), c) \<Rightarrow>
             (case ExecuteWithBackoff (ListLogEntriesTools.rateLimiter t) (list_operation params) ([], w) of
                (Some err, (entries, w'), tr) \<Rightarrow>
                  (\<lparr>Content = Text (''Error listing log entries: '' @ Error err), IsError = True\<rparr>,
                   t\<lparr>ListLogEntriesTools.cache := c\<rparr>, w')
              | (None, (entries, w'), tr) \<Rightarrow>
                  (\<lparr>Content = EntryArray entries, IsError = False\<rparr>,
                   t\<lparr>ListLogEntriesTools.cache := LogCache_Set c (clock w') cacheKey entries (2 * Minute)\<rparr>,
                   w')))"

section \<open>The search tool (search_logs.go)\<close>

definition isStructuredQuery :: "string \<Rightarrow> bool" where
  "isStructuredQuery query = (Contains query ''service_name'' \<or> Contains query ''cloud_run'')"

fun labels_match :: "(string \<times> string) list \<Rightarrow> string \<Rightarrow> bool" where
  "labels_match [] query = False"
| "labels_match ((k, v) # rest) query =
     (if Contains (ToLower k) query \<or> Contains (ToLower v) query then True
      else labels_match rest query)"

definition matchesQuery :: "Entry \<Rightarrow> string \<Rightarrow> bool" where
  "matchesQuery entry query0 =
     (if isStructuredQuery query0 then True
      else (let query = ToLower query0
            in if Contains (ToLower (Entry.LogName entry)) query then True
               else if (case Payload entry of
                          PayloadString payload \<Rightarrow> Contains (ToLower payload) query
                        | PayloadMap payloadStr \<Rightarrow> Contains (ToLower payloadStr) query
                        | PayloadOther \<Rightarrow> False) then True
               else labels_match (Entry.Labels entry) query))"

fun searchLogs_loop ::
  "string \<Rightarrow> int \<Rightarrow> IterItem list \<Rightarrow> LogEntry list \<Rightarrow> int \<Rightarrow> GoError + LogEntry list" where
  "searchLogs_loop query pageSize [] entries count = Inr entries"
| "searchLogs_loop query pageSize (IterError err # rest) entries count =
     (if count \<ge> pageSize then Inr entries
      else Inl (Errorf_w ''failed to iterate log entries: '' (Some err)))"
| "searchLogs_loop query pageSize (Item entry # rest) entries count =
     (if count \<ge> pageSize then Inr entries
      else if \<not> matchesQuery entry query then searchLogs_loop query pageSize rest entries count
      else searchLogs_loop query pageSize rest (entries @ [toLogEntry entry]) (count + 1))"

definition searchLogs :: "World \<Rightarrow> SearchLogsArgs \<Rightarrow> (GoError + LogEntry list) \<times> World" where
  "searchLogs w params =
     (let filter' = buildOptimizedFilter (clock w) params
      in case Entries w filter' of
           (items, w') \<Rightarrow>
             (searchLogs_loop (Query params) (SearchLogsArgs.PageSize params) items [] 0, w'))"

record SearchLogsTool =
  cache :: LogCache
  rateLimiter :: RateLimiter

definition NewSearchLogsTool :: SearchLogsTool where
  "NewSearchLogsTool = \<lparr>cache = NewLogCache, rateLimiter = NewRateLimiter\<rparr>"

definition search_operation ::
  "SearchLogsArgs \<Rightarrow> LogEntry list \<times> World \<Rightarrow> GoError option \<times> LogEntry list \<times> World" where
  "search_operation params s =
     (case s of (entries, w) \<Rightarrow>
        (case searchLogs w params of
           (Inl err, w') \<Rightarrow> (Some err, ([], w'))
         | (Inr es, w') \<Rightarrow> (None, (es, w'))))"

definition search_defaults :: "SearchLogsArgs \<Rightarrow> SearchLogsArgs" where
  "search_defaults params0 =
     (let params1 = params0\<lparr>SearchLogsArgs.PageSize := effectivePageSize (SearchLogsArgs.PageSize params0)\<rparr>
      in if SearchLogsArgs.OrderBy params1 = []
         then params1\<lparr>SearchLogsArgs.OrderBy := ''timestamp desc''\<rparr> else params1)"

definition SearchLogsTool_Execute ::
  "SearchLogsTool \<Rightarrow> World \<Rightarrow> SearchLogsArgs \<Rightarrow> CallToolResult \<times> SearchLogsTool \<times> World" where
  "SearchLogsTool_Execute t w params0 =
     (if Query params0 = []
      then (\<lparr>Content = Text ''Error: query parameter is required'', IsError = True\<rparr>, t, w)
      else
       (let params = search_defaults params0;
            cacheKey = GenerateKey (SearchRequest params)
        in case LogCache_Get (SearchLogsTool.cache t) (clock w) cacheKey of
             ((cachedEntries, True), c) \<Rightarrow>
               (\<lparr>Content = Object [''query'' \<mapsto> JSONString (Query params),
                                   ''count'' \<mapsto> JSONNumber (int (length cachedEntries)),
                                   ''entries'' \<mapsto> JSONEntries cachedEntries,
                                   ''cached'' \<mapsto> JSONBool True],
                 IsError = False\<rparr>,
                t\<lparr>SearchLogsTool.cache := c\<rparr>, w)
           | ((cachedEntries, False), c) \<Rightarrow>
               (case ExecuteWithBackoff (SearchLogsTool.rateLimiter t) (search_operation params) ([], w) of
                  (Some err, (entries, w'), tr) \<Rightarrow>
                    (\<lparr>Content = Text (''Error searching logs: '' @ Error err), IsError = True\<rparr>,
                     t\<lparr>SearchLogsTool.cache := c\<rparr>, w')
                | (None, (entries, w'), tr) \<Rightarrow>
                    (let ttl = (if StartTime params \<noteq> [] then 10 * Minute else 2 * Minute)
                     in (\<lparr>Content = Object [''query'' \<mapsto> JSONString (Query params),
                                            ''count'' \<mapsto> JSONNumber (int (length entries)),
                                            ''entries'' \<mapsto> JSONEntries entries],
                          IsError = False\<rparr>,
                         t\<lparr>SearchLogsTool.cache := LogCache_Set c (clock w') cacheKey entries ttl\<rparr>,
                         w')))))"

section \<open>The preset tool\<close>

record PresetQueryTool =
  cache :: LogCache
  rateLimiter :: RateLimiter

definition NewPresetQueryTool :: PresetQueryTool where
  "NewPresetQueryTool = \<lparr>cache = NewLogCache, rateLimiter = NewRateLimiter\<rparr>"

text \<open>
  \<open>executePresetQuery\<close> builds a list tool of its own and runs its fetch with the filter and
  the page size of the preset.
\<close>

definition executePresetQuery :: "World \<Rightarrow> string \<Rightarrow> int \<Rightarrow> (GoError + LogEntry list) \<times> World" where
  "executePresetQuery w filter' pageSize =
     listLogEntries w \<lparr>Filter = filter', PageSize = pageSize, OrderBy = ''timestamp desc''\<rparr>"

definition preset_operation ::
  "string \<Rightarrow> int \<Rightarrow> LogEntry list \<times> World \<Rightarrow> GoError option \<times> LogEntry list \<times> World" where
  "preset_operation filter' pageSize s =
     (case s of (entries, w) \<Rightarrow>
        (case executePresetQuery w filter' pageSize of
           (Inl err, w') \<Rightarrow> (Some err, ([], w'))
         | (Inr es, w') \<Rightarrow> (None, (es, w'))))"

definition PresetQueryTool_Execute ::
  "PresetQueryTool \<Rightarrow> World \<Rightarrow> PresetQueryArgs \<Rightarrow> CallToolResult \<times> PresetQueryTool \<times> World" where
  "PresetQueryTool_Execute t w params =
     (if QueryName params = []
      then (\<lparr>Content = Text ''Error: queryName parameter is required'', IsError = True\<rparr>, t, w)
      else
       (let cacheKey = GenerateKey (PresetRequest params)
        in case LogCache_Get (PresetQueryTool.cache t) (clock w) cacheKey of
             ((cachedEntries, True), c) \<Rightarrow>
               (\<lparr>Content = Object [''queryName'' \<mapsto> JSONString (QueryName params),
                                   ''count'' \<mapsto> JSONNumber (int (length cachedEntries)),
                                   ''entries'' \<mapsto> JSONEntries cachedEntries,
                                   ''cached'' \<mapsto> JSONBool True],
                 IsError = False\<rparr>,
                t\<lparr>PresetQueryTool.cache := c\<rparr>, w)
           | ((cachedEntries, False), c) \<Rightarrow>
               (case GetPresetQuery (clock w) (QueryName params) (Parameters params) of
                  (filter', pageSize, Some err) \<Rightarrow>
                    (\<lparr>Content = Text (''Error: '' @ Error err), IsError = True\<rparr>,
                     t\<lparr>PresetQueryTool.cache := c\<rparr>, w)
                | (filter', pageSize, None) \<Rightarrow>
                    (case ExecuteWithBackoff (PresetQueryTool.rateLimiter t)
                            (preset_operation filter' pageSize) ([], w) of
                       (Some err, (entries, w'), tr) \<Rightarrow>
                         (\<lparr>Content = Text (''Error executing preset query: '' @ Error err), IsError = True\<rparr>,
                          t\<lparr>PresetQueryTool.cache := c\<rparr>, w')
                     | (None, (entries, w'), tr) \<Rightarrow>
                         (\<lparr>Content = Object [''queryName'' \<mapsto> JSONString (QueryName params),
                                             ''filter'' \<mapsto> JSONString filter',
                                             ''count'' \<mapsto> JSONNumber (int (length entries)),
                                             ''entries'' \<mapsto> JSONEntries entries],
                           IsError = False\<rparr>,
                          t\<lparr>PresetQueryTool.cache := LogCache_Set c (clock w') cacheKey entries
                                                         (2 * 60 * 1000000000)\<rparr>,
                          w')))))"

text \<open>A test double for an operation: it returns the scripted outcomes one after the other.\<close>

fun scripted_operation ::
  "GoError option list \<times> World \<Rightarrow> GoError option \<times> GoError option list \<times> World" where
  "scripted_operation ([], w) = (None, ([], w))"
| "scripted_operation (r # rs, w) = (r, (rs, w))"

section \<open>What the properties below speak of\<close>

text \<open>The alphabet of a cache key.\<close>

definition hex_alphabet :: "char set" where
  "hex_alphabet = set ''0123456789abcdef''"


text \<open>The entries a result carries (none when it is an error text).\<close>

definition returned_entries :: "CallToolResult \<Rightarrow> LogEntry list" where
  "returned_entries r =
     (case Content r of
        Text msg \<Rightarrow> []
      | EntryArray es \<Rightarrow> es
      | Object m \<Rightarrow> (case m ''entries'' of Some (JSONEntries es) \<Rightarrow> es | _ \<Rightarrow> []))"

text \<open>The invariant of a tool's cache: no stored result has more than \<open>n\<close> entries.\<close>

definition cache_bounded :: "LogCache \<Rightarrow> int \<Rightarrow> bool" where
  "cache_bounded c n = (\<forall>key entry. c key = Some entry \<longrightarrow> int (length (Data entry)) \<le> n)"

text \<open>Sample data for the concrete runs below.\<close>

definition sample_entry :: Entry where
  "sample_entry =
     \<lparr>Entry.Timestamp = 1750000000000000000, Severity = ''ERROR'',
      LogName = ''projects/p/logs/app'', InsertID = ''i1'', Trace = [],
      Resource = None, Labels = [(''env'', ''prod'')],
      Payload = PayloadString ''request Timeout after 30s''\<rparr>"

definition other_entry :: Entry where
  "other_entry =
     \<lparr>Entry.Timestamp = 1750000001000000000, Severity = ''INFO'',
      LogName = ''projects/p/logs/app'', InsertID = ''i2'', Trace = [],
      Resource = None, Labels = [],
      Payload = PayloadString ''all good''\<rparr>"

section \<open>Facts about the string functions\<close>

lemma HasPrefix_iff: "HasPrefix s p \<longleftrightarrow> (\<exists>ss. s = p @ ss)"
  by (induction s p rule: HasPrefix.induct) auto

lemma Contains_iff: "Contains s sub \<longleftrightarrow> (\<exists>ps ss. s = ps @ sub @ ss)"
proof (induction s)
  case Nil
  then show ?case by auto
next
  case (Cons c cs)
  show ?case
  proof
    assume "Contains (c # cs) sub"
    then consider "HasPrefix (c # cs) sub" | "Contains cs sub" by auto
    then show "\<exists>ps ss. c # cs = ps @ sub @ ss"
    proof cases
      case 1
      then obtain ss where "c # cs = sub @ ss" by (auto simp: HasPrefix_iff)
      then have "c # cs = [] @ sub @ ss" by simp
      then show ?thesis by blast
    next
      case 2
      then obtain ps ss where "cs = ps @ sub @ ss" using Cons.IH by auto
      then have "c # cs = (c # ps) @ sub @ ss" by simp
      then show ?thesis by blast
    qed
  next
    assume "\<exists>ps ss. c # cs = ps @ sub @ ss"
    then obtain ps ss where eq: "c # cs = ps @ sub @ ss" by blast
    show "Contains (c # cs) sub"
    proof (cases ps)
      case Nil
      with eq have "HasPrefix (c # cs) sub" by (auto simp: HasPrefix_iff)
      then show ?thesis by simp
    next
      case (Cons p ps')
      with eq have "cs = ps' @ sub @ ss" by simp
      then have "Contains cs sub" using Cons.IH by blast
      then show ?thesis by simp
    qed
  qed
qed

lemma Contains_Join: "x \<in> set xs \<Longrightarrow> Contains (Join xs sep) x"
proof (induction xs sep rule: Join.induct)
  case (1 sep)
  then show ?case by simp
next
  case (2 y sep)
  then have "y = [] @ x @ []" by simp
  then show ?case unfolding Contains_iff Join.simps by blast
next
  case (3 y z zs sep)
  show ?case
  proof (cases "x = y")
    case True
    then have "Join (y # z # zs) sep = [] @ x @ (sep @ Join (z # zs) sep)" by simp
    then show ?thesis unfolding Contains_iff by blast
  next
    case False
    with 3 have "Contains (Join (z # zs) sep) x" by simp
    then obtain ps ss where "Join (z # zs) sep = ps @ x @ ss" unfolding Contains_iff by blast
    then have "Join (y # z # zs) sep = (y @ sep @ ps) @ x @ ss" by simp
    then show ?thesis unfolding Contains_iff by blast
  qed
qed

lemma isSpace_to_lower: "isSpace (to_lower_char c) = isSpace c"
  by (auto simp: isSpace_def to_lower_char_def)

lemma fields_from_ToLower:
  "fields_from (map to_lower_char cur) (map to_lower_char s) = map (map to_lower_char) (fields_from cur s)"
proof (induction s arbitrary: cur)
  case Nil
  then show ?case by simp
next
  case (Cons a s)
  have e: "fields_from [] (map to_lower_char s) = map (map to_lower_char) (fields_from [] s)"
    using Cons [of "[]"] by simp
  have n: "fields_from (map to_lower_char cur @ [to_lower_char a]) (map to_lower_char s) =
           map (map to_lower_char) (fields_from (cur @ [a]) s)"
    using Cons [of "cur @ [a]"] by simp
  show ?case by (simp add: isSpace_to_lower e n)
qed

lemma Fields_ToLower: "Fields (ToLower q) = map ToLower (Fields q)"
  using fields_from_ToLower [of "[]" q] by (simp add: Fields_def ToLower_def [abs_def])

lemma Contains_single: "Contains s [c] \<longleftrightarrow> c \<in> set s"
  by (induction s) auto

lemma to_lower_hyphen: "to_lower_char c = CHR ''-'' \<longleftrightarrow> c = CHR ''-''"
proof
  assume h: "to_lower_char c = CHR ''-''"
  show "c = CHR ''-''"
  proof (rule ccontr)
    assume n: "c \<noteq> CHR ''-''"
    with h have up: "(65::nat) \<le> of_char c \<and> of_char c \<le> (90::nat)"
      and eq: "char_of (of_char c + (32::nat)) = CHR ''-''"
      by (auto simp: to_lower_char_def split: if_splits)
    from eq have "(of_char (char_of (of_char c + (32::nat))) :: nat) = of_char (CHR ''-'')" by simp
    with up show False by simp
  qed
next
  assume "c = CHR ''-''"
  then show "to_lower_char c = CHR ''-''" by (simp add: to_lower_char_def)
qed

lemma hyphenated_ToLower:
  "(Contains (ToLower p) ''-'' \<and> 5 < length (ToLower p)) = (Contains p ''-'' \<and> 5 < length p)"
proof -
  have "CHR ''-'' \<in> to_lower_char ` set p \<longleftrightarrow> CHR ''-'' \<in> set p"
    using to_lower_hyphen by (metis image_iff)
  then show ?thesis by (simp add: Contains_single ToLower_def)
qed

lemma FormatRFC3339_sample: "FormatRFC3339 1749913600000000000 = ''2025-06-14T15:06:40Z''"
  by code_simp

section \<open>Properties of the cache\<close>

lemma cleanup_keeps_valid:
  "swept \<le> now \<Longrightarrow>
   fst (LogCache_Get (LogCache_cleanup_pass s swept) now k) = fst (LogCache_Get s now k)"
  by (simp add: LogCache_Get_def LogCache_cleanup_pass_def split: option.split)

lemma LogCache_Get_state: "snd (LogCache_Get c now key) = c"
  by (simp add: LogCache_Get_def split: option.split)

text \<open>
  C4, as the code has it. After \<open>Set(k, recs, t)\<close> stamped at \<open>created\<close>, \<open>Get(k)\<close> at the
  instant \<open>now\<close> returns \<open>(recs, true)\<close> when \<open>now - created \<le> t\<close> and \<open>(nil, false)\<close> when
  \<open>now - created > t\<close>: the entry is valid on the closed interval from its creation to
  creation + ttl. \<open>Get\<close> returns the cache it was given, and a \<open>Get\<close> after any earlier
  \<open>Get\<close> answers as if the earlier one had not happened, so reading extends no TTL. A pass
  of the sweep before \<open>now\<close> changes no answer of \<open>Get\<close> at \<open>now\<close>.
\<close>

theorem cache_get_after_set:
  "LogCache_Get (LogCache_Set c created k recs ttl) now k =
     ((if now - created \<le> ttl then (recs, True) else ([], False)), LogCache_Set c created k recs ttl)
   \<and> snd (LogCache_Get s now k') = s
   \<and> LogCache_Get (snd (LogCache_Get s earlier k'')) now k' = LogCache_Get s now k'
   \<and> (swept \<le> now \<longrightarrow>
        fst (LogCache_Get (LogCache_cleanup_pass s swept) now k') = fst (LogCache_Get s now k'))"
proof -
  have "LogCache_Get (LogCache_Set c created k recs ttl) now k =
     ((if now - created \<le> ttl then (recs, True) else ([], False)), LogCache_Set c created k recs ttl)"
    by (simp add: LogCache_Get_def LogCache_Set_def)
  moreover have "swept \<le> now \<longrightarrow>
        fst (LogCache_Get (LogCache_cleanup_pass s swept) now k') = fst (LogCache_Get s now k')"
    using cleanup_keeps_valid [of swept now s k'] by blast
  ultimately show ?thesis
    by (simp only: LogCache_Get_state simp_thms)
qed

theorem cache_get_after_set_witness:
  "fst (LogCache_Get (LogCache_Set NewLogCache 100 ''k'' [] 5) 103 ''k'') = ([], True)
   \<and> fst (LogCache_Get (LogCache_Set NewLogCache 100 ''k'' [] 5) 106 ''k'') = ([], False)
   \<and> fst (LogCache_Get (LogCache_cleanup_pass (LogCache_Set NewLogCache 100 ''k'' [] 5) 102) 103 ''k'')
       = ([], True)"
  using cache_get_after_set [of NewLogCache 100 "''k''" "[]" 5 103 "LogCache_Set NewLogCache 100 ''k'' [] 5" "''k''" 0 "''k''" 102]
        cache_get_after_set [of NewLogCache 100 "''k''" "[]" 5 106]
  by simp

text \<open>
  C4 as stated fails at the boundary: an entry stored at instant 100 with a TTL of 5 is
  still returned at instant 105, where \<open>now - created = ttl\<close>.
\<close>

theorem cache_boundary_counterexample:
  "(105::int) - 100 \<ge> 5 \<and>
   fst (LogCache_Get
          (LogCache_Set NewLogCache 100 ''k''
             [\<lparr>LogEntry.Timestamp = ''2025-06-30T00:00:00Z'', Severity = ''ERROR'', LogName = ''app'',
               Resource = None, Labels = [], TextPayload = ''boom'', JSONPayload = None,
               InsertID = ''i1'', TraceID = ''''\<rparr>] 5)
          105 ''k'')
   = ([\<lparr>LogEntry.Timestamp = ''2025-06-30T00:00:00Z'', Severity = ''ERROR'', LogName = ''app'',
        Resource = None, Labels = [], TextPayload = ''boom'', JSONPayload = None,
        InsertID = ''i1'', TraceID = ''''\<rparr>], True)"
  by (simp add: LogCache_Get_def LogCache_Set_def NewLogCache_def)

section \<open>Properties of the filter compiler\<close>

lemma filters_append_filter: "filters (append_filter fb f) = filters fb @ [f]"
  by (simp add: append_filter_def)

lemma Build_Contains: "x \<in> set (filters fb) \<Longrightarrow> Contains (Build fb) x"
  by (cases "filters fb") (auto simp: Build_def Contains_Join)

lemma AddKeywords_mono: "set (filters fb) \<subseteq> set (filters (AddKeywords fb k))"
  by (auto simp: AddKeywords_def Let_def filters_append_filter)

lemma AddDefaultTimeConstraint_mono: "set (filters fb) \<subseteq> set (filters (AddDefaultTimeConstraint fb now))"
  by (auto simp: AddDefaultTimeConstraint_def filters_append_filter)

lemma Sprintf_service_name:
  "Sprintf ''resource.labels.service_name=\"%s\"'' [s] = ''resource.labels.service_name=\"'' @ s @ ''\"''"
  by simp

lemma AddCloudRunService_clause:
  "tok \<noteq> [] \<Longrightarrow> ''resource.labels.service_name=\"'' @ tok @ ''\"'' \<in> set (filters (AddCloudRunService fb tok))"
  unfolding AddCloudRunService_def Sprintf_service_name by (simp add: filters_append_filter)

lemma service_name_loop_find:
  "find (\<lambda>p. Contains p ''-'' \<and> 5 < length p) parts = Some tok \<Longrightarrow>
   service_name_loop parts fb = AddCloudRunService fb tok"
  by (induction parts) (auto split: if_splits)

lemma find_ToLower:
  "find (\<lambda>p. Contains p ''-'' \<and> 5 < length p) (map ToLower parts) =
   map_option ToLower (find (\<lambda>p. Contains p ''-'' \<and> 5 < length p) parts)"
  by (induction parts) (simp_all add: hyphenated_ToLower)

text \<open>
  C5, as the code has it. For the empty request (no query, no time range, no severity, no
  resource type, no log name) \<open>buildOptimizedFilter\<close> yields exactly one clause, the default
  lower bound \<^verbatim>\<open>timestamp >= "T"\<close> with \<open>T\<close> the RFC 3339 rendering of the compile time minus
  24 hours; the empty string is what \<open>Build\<close> yields on a builder that holds no clause.
\<close>

theorem empty_request_filter:
  "buildOptimizedFilter now \<lparr>Query = [], StartTime = [], EndTime = [], Severity = [], Resource = [],
                              LogName = [], PageSize = ps, OrderBy = ob\<rparr>
     = ''timestamp >= \"'' @ FormatRFC3339 (now - 24 * Hour) @ ''\"''
   \<and> Build NewFilterBuilder = []"
  by (simp add: buildOptimizedFilter_def NewFilterBuilder_def AddTimeRange_def AddSeverity_def
      AddLogName_def AddDefaultTimeConstraint_def append_filter_def Build_def)

theorem empty_request_filter_witness:
  "buildOptimizedFilter 1750000000000000000
     \<lparr>Query = [], StartTime = [], EndTime = [], Severity = [], Resource = [],
      LogName = [], PageSize = 0, OrderBy = []\<rparr> \<noteq> []"
  using empty_request_filter [of 1750000000000000000 0 "[]"] by simp

text \<open>
  C5 as stated fails: compiled at 2025-06-15T15:06:40Z, the empty request gives the
  default clause, not the empty string.
\<close>

theorem empty_request_counterexample:
  "buildOptimizedFilter 1750000000000000000
     \<lparr>Query = [], StartTime = [], EndTime = [], Severity = [], Resource = [],
      LogName = [], PageSize = 0, OrderBy = []\<rparr>
   = ''timestamp >= \"2025-06-14T15:06:40Z\"''"
  by (simp add: buildOptimizedFilter_def NewFilterBuilder_def AddTimeRange_def AddSeverity_def
      AddLogName_def AddDefaultTimeConstraint_def append_filter_def Build_def
      Hour_def Minute_def Second_def FormatRFC3339_sample)

text \<open>
  C3, at the failing input: a request with no start and no end time whose query is the word
  \<^verbatim>\<open>timestamp\<close>. The keyword clause contains the marker that the scan for a time filter
  looks for, so no lower bound is added, whatever the compile time.
\<close>

theorem keyword_timestamp_suppresses_default:
  "buildOptimizedFilter now
     \<lparr>Query = ''timestamp'', StartTime = [], EndTime = [], Severity = [], Resource = [],
      LogName = [], PageSize = 10, OrderBy = ''timestamp desc''\<rparr>
   = ''(textPayload:\"timestamp\" OR jsonPayload.message:\"timestamp\")''"
  by (simp add: buildOptimizedFilter_def NewFilterBuilder_def AddTimeRange_def AddSeverity_def
      AddLogName_def AddDefaultTimeConstraint_def append_filter_def Build_def
      parseQueryForOptimizedFilters_def AddKeywords_def ToLower_def to_lower_char_def)

text \<open>
  C8, as the code has it. When the lower-cased query contains \<^verbatim>\<open>casone\<close>, \<^verbatim>\<open>tenant\<close> or
  \<^verbatim>\<open>api\<close>, and \<open>tok\<close> is the first white-space delimited token of the query that has a hyphen
  and more than five bytes, the compiled filter contains the clause
  \<^verbatim>\<open>resource.labels.service_name="t"\<close> for \<open>t\<close> the lower-cased token.
\<close>

theorem service_name_clause:
  assumes gate: "Contains (ToLower q) ''casone'' \<or> Contains (ToLower q) ''tenant'' \<or> Contains (ToLower q) ''api''"
    and tok: "find (\<lambda>p. Contains p ''-'' \<and> 5 < length p) (Fields q) = Some tok"
    and q: "Query params = q"
  shows "Contains (buildOptimizedFilter now params)
           (''resource.labels.service_name=\"'' @ ToLower tok @ ''\"'')"
proof -
  let ?clause = "''resource.labels.service_name=\"'' @ ToLower tok @ ''\"''"
  from tok have "5 < length tok" by (auto dest: find_Some_iff [THEN iffD1])
  then have ne: "ToLower tok \<noteq> []" by (auto simp: ToLower_def)
  from tok have qne: "q \<noteq> []" by (auto simp: Fields_def)
  from tok have "find (\<lambda>p. Contains p ''-'' \<and> 5 < length p) (Fields (ToLower q)) = Some (ToLower tok)"
    by (simp add: Fields_ToLower find_ToLower)
  then have loop: "service_name_loop (Fields (ToLower q)) fb = AddCloudRunService fb (ToLower tok)" for fb
    by (rule service_name_loop_find)
  have "?clause \<in> set (filters (parseQueryForOptimizedFilters q fb))" for fb
    using gate AddCloudRunService_clause [OF ne, of fb] AddKeywords_mono
    by (auto simp: parseQueryForOptimizedFilters_def Let_def loop)
  then have "?clause \<in> set (filters (AddDefaultTimeConstraint (parseQueryForOptimizedFilters q fb) now))" for fb
    using AddDefaultTimeConstraint_mono by blast
  then show ?thesis
    unfolding buildOptimizedFilter_def Let_def using q qne by (simp add: Build_Contains)
qed

theorem service_name_clause_witness:
  "Contains (buildOptimizedFilter 1750000000000000000
       \<lparr>Query = ''Casone-Lite-API timeout'', StartTime = [], EndTime = [], Severity = [], Resource = [],
        LogName = [], PageSize = 10, OrderBy = ''timestamp desc''\<rparr>)
     ''resource.labels.service_name=\"casone-lite-api\"''"
proof -
  have gate: "Contains (ToLower ''Casone-Lite-API timeout'') ''casone'' \<or>
              Contains (ToLower ''Casone-Lite-API timeout'') ''tenant'' \<or>
              Contains (ToLower ''Casone-Lite-API timeout'') ''api''"
    by code_simp
  have tok: "find (\<lambda>p. Contains p ''-'' \<and> 5 < length p) (Fields ''Casone-Lite-API timeout'')
             = Some ''Casone-Lite-API''"
    by code_simp
  have low: "ToLower ''Casone-Lite-API'' = ''casone-lite-api''"
    by code_simp
  show ?thesis
    using service_name_clause [OF gate tok, of
      "\<lparr>Query = ''Casone-Lite-API timeout'', StartTime = [], EndTime = [], Severity = [], Resource = [],
        LogName = [], PageSize = 10, OrderBy = ''timestamp desc''\<rparr>" 1750000000000000000]
    by (simp add: low)
qed

text \<open>
  C8 as stated fails without the gate: the query \<^verbatim>\<open>my-service-prod\<close> is one hyphenated
  token of 15 bytes, and the compiled filter has no service-name clause at all.
\<close>

theorem service_name_gate_counterexample:
  "Fields ''my-service-prod'' = [''my-service-prod'']
   \<and> Contains ''my-service-prod'' ''-'' \<and> 5 < length ''my-service-prod''
   \<and> \<not> Contains (buildOptimizedFilter 1750000000000000000
       \<lparr>Query = ''my-service-prod'', StartTime = [], EndTime = [], Severity = [], Resource = [],
        LogName = [], PageSize = 10, OrderBy = ''timestamp desc''\<rparr>)
     ''resource.labels.service_name''"
  by (simp add: buildOptimizedFilter_def NewFilterBuilder_def AddTimeRange_def AddSeverity_def
      AddLogName_def AddDefaultTimeConstraint_def append_filter_def Build_def
      parseQueryForOptimizedFilters_def AddKeywords_def ToLower_def to_lower_char_def
      Hour_def Minute_def Second_def FormatRFC3339_sample Fields_def isSpace_def)

section \<open>Properties of the preset catalog\<close>

text \<open>
  C7. \<open>GetPresetQuery("cloud_run_service_errors", ["svc-a"])\<close> returns, with no error, the
  page size 15 and a filter that contains \<^verbatim>\<open>resource.labels.service_name="svc-a"\<close>; with no
  parameter it returns the error that names the preset and asks for the service name; for
  the name \<^verbatim>\<open>nonexistent\<close> it returns the error that the preset is not found; in both error
  cases the filter is empty and the page size 0.
\<close>

theorem preset_resolution:
  "GetPresetQuery now ''cloud_run_service_errors'' [''svc-a''] =
     (''resource.type=\"cloud_run_revision\" AND resource.labels.service_name=\"svc-a\" AND severity>=ERROR AND timestamp>=\"''
        @ FormatRFC3339 (now - 2 * Hour) @ ''\"'', 15, None)
   \<and> Contains (fst (GetPresetQuery now ''cloud_run_service_errors'' [''svc-a'']))
        ''resource.labels.service_name=\"svc-a\"''
   \<and> GetPresetQuery now ''cloud_run_service_errors'' [] =
        ([], 0, Some \<lparr>status = None, Error = ''service name parameter required for cloud_run_service_errors''\<rparr>)
   \<and> Contains ''service name parameter required for cloud_run_service_errors'' ''cloud_run_service_errors''
   \<and> GetPresetQuery now ''nonexistent'' params =
        ([], 0, Some \<lparr>status = None, Error = ''preset query 'nonexistent' not found''\<rparr>)"
proof -
  have a: "GetPresetQuery now ''cloud_run_service_errors'' [''svc-a''] =
     (''resource.type=\"cloud_run_revision\" AND resource.labels.service_name=\"svc-a\" AND severity>=ERROR AND timestamp>=\"''
        @ FormatRFC3339 (now - 2 * Hour) @ ''\"'', 15, None)"
    by (simp add: GetPresetQuery_def CommonPresetQueries_def)
  have "fst (GetPresetQuery now ''cloud_run_service_errors'' [''svc-a'']) =
        ''resource.type=\"cloud_run_revision\" AND '' @ ''resource.labels.service_name=\"svc-a\"'' @
        ('' AND severity>=ERROR AND timestamp>=\"'' @ FormatRFC3339 (now - 2 * Hour) @ ''\"'')"
    by (simp add: a)
  then have b: "Contains (fst (GetPresetQuery now ''cloud_run_service_errors'' [''svc-a'']))
        ''resource.labels.service_name=\"svc-a\"''"
    unfolding Contains_iff by blast
  have c: "GetPresetQuery now ''cloud_run_service_errors'' [] =
        ([], 0, Some \<lparr>status = None, Error = ''service name parameter required for cloud_run_service_errors''\<rparr>)"
    by (simp add: GetPresetQuery_def CommonPresetQueries_def Errorf_def)
  have d: "Contains ''service name parameter required for cloud_run_service_errors'' ''cloud_run_service_errors''"
    by simp
  have e: "GetPresetQuery now ''nonexistent'' params =
        ([], 0, Some \<lparr>status = None, Error = ''preset query 'nonexistent' not found''\<rparr>)"
    by (simp add: GetPresetQuery_def CommonPresetQueries_def Errorf_def)
  from a b c d e show ?thesis by blast
qed

theorem preset_resolution_witness:
  "snd (GetPresetQuery 1750000000000000000 ''cloud_run_service_errors'' [''svc-a'']) = (15, None)
   \<and> GetPresetQuery 1750000000000000000 ''nonexistent'' [] =
        ([], 0, Some \<lparr>status = None, Error = ''preset query 'nonexistent' not found''\<rparr>)"
  using preset_resolution [of 1750000000000000000 "[]"] by simp

section \<open>Properties of the retry coordinator\<close>

lemma contains_fold_iff:
  "Contains (ToLower s) phrase \<longleftrightarrow> (\<exists>pre mid post. s = pre @ mid @ post \<and> ToLower mid = phrase)"
proof
  assume "Contains (ToLower s) phrase"
  then obtain ps ss where "map to_lower_char s = ps @ (phrase @ ss)"
    unfolding Contains_iff ToLower_def by blast
  from this [unfolded map_eq_append_conv]
  obtain pre rest where s: "s = pre @ rest" and r: "phrase @ ss = map to_lower_char rest"
    by blast
  from r [symmetric, unfolded map_eq_append_conv]
  obtain mid post where "rest = mid @ post" and "phrase = map to_lower_char mid"
    by blast
  with s show "\<exists>pre mid post. s = pre @ mid @ post \<and> ToLower mid = phrase"
    unfolding ToLower_def by blast
next
  assume "\<exists>pre mid post. s = pre @ mid @ post \<and> ToLower mid = phrase"
  then obtain pre mid post where "s = pre @ mid @ post" and "ToLower mid = phrase" by blast
  then have "ToLower s = ToLower pre @ phrase @ ToLower post" by (auto simp: ToLower_def)
  then show "Contains (ToLower s) phrase" unfolding Contains_iff by blast
qed

lemma ex3_disj:
  "((\<exists>a b c. A a b c \<and> P b) \<or> (\<exists>a b c. A a b c \<and> Q b) \<or> (\<exists>a b c. A a b c \<and> R b))
   \<longleftrightarrow> (\<exists>a b c. A a b c \<and> (P b \<or> Q b \<or> R b))"
  by blast

lemma backoff_two_quota_then_success:
  assumes c1: "operation s0 = (Some e1, (v1, w1))" and q1: "isQuotaExceededError e1"
    and c2: "operation (v1, sleep 1100000000 w1) = (Some e2, (v2, w2))" and q2: "isQuotaExceededError e2"
    and c3: "operation (v2, sleep 2200000000 w2) = (None, s3)"
  shows "ExecuteWithBackoff NewRateLimiter operation s0 =
           (None, s3, [Invoke, Sleep 1100000000, Invoke, Sleep 2200000000, Invoke])"
proof -
  have b0: "calculateBackoff NewRateLimiter 0 = 1100000000"
    by (simp add: calculateBackoff_def NewRateLimiter_def Second_def)
  have b1: "calculateBackoff NewRateLimiter 1 = 2200000000"
    by (simp add: calculateBackoff_def NewRateLimiter_def Second_def)
  have m: "maxRetries NewRateLimiter = 3" by (simp add: NewRateLimiter_def)
  have "backoff_loop NewRateLimiter operation 0 None s0 [] =
        backoff_loop NewRateLimiter operation 1 (Some e1) (v1, sleep 1100000000 w1) [Invoke, Sleep 1100000000]"
    by (subst backoff_loop.simps) (simp add: c1 q1 m b0)
  also have "\<dots> = backoff_loop NewRateLimiter operation 2 (Some e2) (v2, sleep 2200000000 w2)
                     [Invoke, Sleep 1100000000, Invoke, Sleep 2200000000]"
    by (subst backoff_loop.simps) (simp add: c2 q2 m b1)
  also have "\<dots> = (None, s3, [Invoke, Sleep 1100000000, Invoke, Sleep 2200000000, Invoke])"
    by (subst backoff_loop.simps) (simp add: c3 m)
  finally show ?thesis by (simp add: ExecuteWithBackoff_def)
qed

lemma backoff_fatal_first:
  assumes c1: "operation s0 = (Some e, s1)" and nq: "\<not> isQuotaExceededError e"
  shows "ExecuteWithBackoff NewRateLimiter operation s0 = (Some e, s1, [Invoke])"
proof -
  obtain v1 w1 where s1: "s1 = (v1, w1)" by (cases s1)
  show ?thesis
    unfolding ExecuteWithBackoff_def
    by (subst backoff_loop.simps) (simp add: c1 nq s1 NewRateLimiter_def)
qed

text \<open>
  C2. With the rate limiter the tools construct: an operation that fails twice with a quota
  error and then succeeds is called exactly three times, with a sleep of 1.1 s after the
  first call and of 2.2 s after the second, and the result is success; an operation whose
  first call fails with another error is called once and that very error is returned. An
  error counts as a quota error exactly when its gRPC status is \<open>ResourceExhausted\<close> or its
  text has a part that is, up to the case of letters, \<^verbatim>\<open>quota exceeded\<close>, \<^verbatim>\<open>rate limit\<close> or
  \<^verbatim>\<open>resource exhausted\<close>.
\<close>

theorem retry_coordinator:
  "(operation s0 = (Some e1, (v1, w1)) \<and> isQuotaExceededError e1 \<and>
    operation (v1, sleep 1100000000 w1) = (Some e2, (v2, w2)) \<and> isQuotaExceededError e2 \<and>
    operation (v2, sleep 2200000000 w2) = (None, s3)
    \<longrightarrow> ExecuteWithBackoff NewRateLimiter operation s0 =
          (None, s3, [Invoke, Sleep 1100000000, Invoke, Sleep 2200000000, Invoke])
        \<and> (1100000000::int) < 2200000000)
   \<and> (operation' t0 = (Some e, t1) \<and> \<not> isQuotaExceededError e
      \<longrightarrow> ExecuteWithBackoff NewRateLimiter operation' t0 = (Some e, t1, [Invoke]))
   \<and> (isQuotaExceededError err \<longleftrightarrow>
        status err = Some ResourceExhausted \<or>
        (\<exists>pre mid post. Error err = pre @ mid @ post \<and>
           (ToLower mid = ''quota exceeded'' \<or> ToLower mid = ''rate limit'' \<or>
            ToLower mid = ''resource exhausted'')))"
proof -
  have cls: "isQuotaExceededError err \<longleftrightarrow>
        status err = Some ResourceExhausted \<or>
        (\<exists>pre mid post. Error err = pre @ mid @ post \<and>
           (ToLower mid = ''quota exceeded'' \<or> ToLower mid = ''rate limit'' \<or>
            ToLower mid = ''resource exhausted''))"
  proof -
    let ?has = "\<lambda>phrase. \<exists>pre mid post. Error err = pre @ mid @ post \<and> ToLower mid = phrase"
    have "isQuotaExceededError err \<longleftrightarrow>
          status err = Some ResourceExhausted \<or> Contains (ToLower (Error err)) ''quota exceeded'' \<or>
          Contains (ToLower (Error err)) ''rate limit'' \<or>
          Contains (ToLower (Error err)) ''resource exhausted''"
      unfolding isQuotaExceededError_def Let_def by (cases "status err = Some ResourceExhausted") simp_all
    then have "isQuotaExceededError err \<longleftrightarrow>
          status err = Some ResourceExhausted \<or> ?has ''quota exceeded'' \<or> ?has ''rate limit'' \<or>
          ?has ''resource exhausted''"
      unfolding contains_fold_iff .
    then show ?thesis
      unfolding ex3_disj .
  qed
  have first: "operation s0 = (Some e1, (v1, w1)) \<and> isQuotaExceededError e1 \<and>
    operation (v1, sleep 1100000000 w1) = (Some e2, (v2, w2)) \<and> isQuotaExceededError e2 \<and>
    operation (v2, sleep 2200000000 w2) = (None, s3)
    \<longrightarrow> ExecuteWithBackoff NewRateLimiter operation s0 =
          (None, s3, [Invoke, Sleep 1100000000, Invoke, Sleep 2200000000, Invoke])
        \<and> (1100000000::int) < 2200000000"
  proof (intro impI conjI)
    assume h: "operation s0 = (Some e1, (v1, w1)) \<and> isQuotaExceededError e1 \<and>
      operation (v1, sleep 1100000000 w1) = (Some e2, (v2, w2)) \<and> isQuotaExceededError e2 \<and>
      operation (v2, sleep 2200000000 w2) = (None, s3)"
    then show "ExecuteWithBackoff NewRateLimiter operation s0 =
          (None, s3, [Invoke, Sleep 1100000000, Invoke, Sleep 2200000000, Invoke])"
      by (intro backoff_two_quota_then_success [of operation s0 e1 v1 w1 e2 v2 w2 s3]) blast+
  next
    show "(1100000000::int) < 2200000000" by simp
  qed
  have second: "operation' t0 = (Some e, t1) \<and> \<not> isQuotaExceededError e
      \<longrightarrow> ExecuteWithBackoff NewRateLimiter operation' t0 = (Some e, t1, [Invoke])"
    using backoff_fatal_first [of operation' t0 e t1] by blast
  from first second cls show ?thesis by (intro conjI)
qed

theorem retry_coordinator_witness:
  "ExecuteWithBackoff NewRateLimiter scripted_operation
     ([Some \<lparr>status = Some ResourceExhausted, Error = ''rpc error: code = ResourceExhausted desc = slow down''\<rparr>,
       Some \<lparr>status = None, Error = ''googleapi: Error 429: Quota Exceeded''\<rparr>,
       None],
      \<lparr>clock = 0, responses = [], requests = []\<rparr>)
   = (None, ([], \<lparr>clock = 3300000000, responses = [], requests = []\<rparr>),
      [Invoke, Sleep 1100000000, Invoke, Sleep 2200000000, Invoke])
   \<and> ExecuteWithBackoff NewRateLimiter scripted_operation
       ([Some \<lparr>status = Some PermissionDenied, Error = ''permission denied''\<rparr>, None],
        \<lparr>clock = 0, responses = [], requests = []\<rparr>)
     = (Some \<lparr>status = Some PermissionDenied, Error = ''permission denied''\<rparr>,
        ([None], \<lparr>clock = 0, responses = [], requests = []\<rparr>), [Invoke])"
proof -
  let ?e1 = "\<lparr>status = Some ResourceExhausted, Error = ''rpc error: code = ResourceExhausted desc = slow down''\<rparr>"
  let ?e2 = "\<lparr>status = None, Error = ''googleapi: Error 429: Quota Exceeded''\<rparr>"
  let ?e3 = "\<lparr>status = Some PermissionDenied, Error = ''permission denied''\<rparr>"
  let ?w = "\<lparr>clock = 0, responses = [], requests = []\<rparr>"
  have q1: "isQuotaExceededError ?e1" by (simp add: isQuotaExceededError_def)
  have q2: "isQuotaExceededError ?e2" by code_simp
  have q3: "\<not> isQuotaExceededError ?e3" by code_simp
  show ?thesis
    using retry_coordinator [of scripted_operation "([Some ?e1, Some ?e2, None], ?w)" ?e1
        "[Some ?e2, None]" ?w ?e2 "[None]" "sleep 1100000000 ?w"
        "([], sleep 2200000000 (sleep 1100000000 ?w))"
        scripted_operation "([Some ?e3, None], ?w)" ?e3 "([None], ?w)"] q1 q2 q3
    by (simp add: sleep_def)
qed

section \<open>Properties of the search path\<close>

lemma labels_match_iff:
  "labels_match ls q \<longleftrightarrow> (\<exists>(k, v) \<in> set ls. Contains (ToLower k) q \<or> Contains (ToLower v) q)"
  by (induction ls q rule: labels_match.induct) auto

lemma matchesQuery_toLogEntry:
  assumes "matchesQuery entry query"
  shows "isStructuredQuery query
     \<or> Contains (ToLower (LogEntry.LogName (toLogEntry entry))) (ToLower query)
     \<or> Contains (ToLower (TextPayload (toLogEntry entry))) (ToLower query)
     \<or> (\<exists>js. JSONPayload (toLogEntry entry) = Some js \<and> Contains (ToLower js) (ToLower query))
     \<or> (\<exists>(k, v) \<in> set (LogEntry.Labels (toLogEntry entry)).
           Contains (ToLower k) (ToLower query) \<or> Contains (ToLower v) (ToLower query))"
  using assms
  by (cases "Payload entry")
     (auto simp: matchesQuery_def toLogEntry_def Let_def labels_match_iff split: if_splits)

lemma searchLogs_loop_set:
  "searchLogs_loop query pageSize items entries count = Inr es \<Longrightarrow>
   set es \<subseteq> set entries \<union> {toLogEntry e | e. Item e \<in> set items \<and> matchesQuery e query}"
proof (induction query pageSize items entries count rule: searchLogs_loop.induct)
  case (1 query pageSize entries count)
  then show ?case by auto
next
  case (2 query pageSize err rest entries count)
  then show ?case by (auto split: if_splits)
next
  case (3 query pageSize entry rest entries count)
  show ?case
  proof (cases "count \<ge> pageSize")
    case True
    with 3 show ?thesis by auto
  next
    case False
    show ?thesis
    proof (cases "matchesQuery entry query")
      case True
      with False 3 have "set es \<subseteq> set (entries @ [toLogEntry entry]) \<union>
          {toLogEntry e | e. Item e \<in> set rest \<and> matchesQuery e query}" by simp
      with True show ?thesis by auto
    next
      case nm: False
      with False 3 have "set es \<subseteq> set entries \<union>
          {toLogEntry e | e. Item e \<in> set rest \<and> matchesQuery e query}" by simp
      then show ?thesis by auto
    qed
  qed
qed

text \<open>
  C10. Every entry that the remote-query path of the search tool returns comes from an entry
  of the remote store that \<open>matchesQuery\<close> accepted: either the query contains
  \<^verbatim>\<open>service_name\<close> or \<^verbatim>\<open>cloud_run\<close> (then every entry is accepted, no matching is done), or the
  lower-cased query is a substring of the lower-cased log name, text payload, JSON payload or
  of a label key or value of the entry. An entry that is not accepted is skipped without
  being counted, so fewer entries than the page size can be returned although the remote
  store delivered more (the concrete run below returns one of three).
\<close>

theorem search_client_side_filter:
  "(searchLogs w params = (Inr es, w') \<longrightarrow>
      (\<forall>le \<in> set es.
         isStructuredQuery (Query params)
         \<or> Contains (ToLower (LogEntry.LogName le)) (ToLower (Query params))
         \<or> Contains (ToLower (TextPayload le)) (ToLower (Query params))
         \<or> (\<exists>js. JSONPayload le = Some js \<and> Contains (ToLower js) (ToLower (Query params)))
         \<or> (\<exists>(k, v) \<in> set (LogEntry.Labels le).
               Contains (ToLower k) (ToLower (Query params)) \<or> Contains (ToLower v) (ToLower (Query params)))))
   \<and> (isStructuredQuery query \<longrightarrow> matchesQuery entry query)
   \<and> (\<not> matchesQuery entry query \<and> count < pageSize \<longrightarrow>
        searchLogs_loop query pageSize (Item entry # rest) entries count =
        searchLogs_loop query pageSize rest entries count)"
proof (intro conjI impI ballI)
  fix le
  assume run: "searchLogs w params = (Inr es, w')" and le: "le \<in> set es"
  obtain items w1 where ent: "Entries w (buildOptimizedFilter (clock w) params) = (items, w1)"
    by (cases "Entries w (buildOptimizedFilter (clock w) params)")
  with run have "searchLogs_loop (Query params) (SearchLogsArgs.PageSize params) items [] 0 = Inr es"
    by (simp add: searchLogs_def Let_def)
  from searchLogs_loop_set [OF this] le
  obtain e where "le = toLogEntry e" and "matchesQuery e (Query params)" by auto
  then show "isStructuredQuery (Query params)
         \<or> Contains (ToLower (LogEntry.LogName le)) (ToLower (Query params))
         \<or> Contains (ToLower (TextPayload le)) (ToLower (Query params))
         \<or> (\<exists>js. JSONPayload le = Some js \<and> Contains (ToLower js) (ToLower (Query params)))
         \<or> (\<exists>(k, v) \<in> set (LogEntry.Labels le).
               Contains (ToLower k) (ToLower (Query params)) \<or> Contains (ToLower v) (ToLower (Query params)))"
    using matchesQuery_toLogEntry by blast
next
  assume "isStructuredQuery query"
  then show "matchesQuery entry query" by (simp add: matchesQuery_def)
next
  assume "\<not> matchesQuery entry query \<and> count < pageSize"
  then show "searchLogs_loop query pageSize (Item entry # rest) entries count =
        searchLogs_loop query pageSize rest entries count" by simp
qed

theorem search_client_side_filter_witness:
  "fst (searchLogs
          \<lparr>clock = 1750000000000000000,
           responses = [(0, [Item other_entry, Item sample_entry, Item other_entry])],
           requests = []\<rparr>
          \<lparr>Query = ''timeout'', StartTime = ''2025-06-15T00:00:00Z'', EndTime = [], Severity = [],
           Resource = [], LogName = [], PageSize = 10, OrderBy = ''timestamp desc''\<rparr>)
     = Inr [toLogEntry sample_entry]
   \<and> (isStructuredQuery ''timeout''
      \<or> Contains (ToLower (LogEntry.LogName (toLogEntry sample_entry))) (ToLower ''timeout'')
      \<or> Contains (ToLower (TextPayload (toLogEntry sample_entry))) (ToLower ''timeout'')
      \<or> (\<exists>js. JSONPayload (toLogEntry sample_entry) = Some js \<and> Contains (ToLower js) (ToLower ''timeout''))
      \<or> (\<exists>(k, v) \<in> set (LogEntry.Labels (toLogEntry sample_entry)).
            Contains (ToLower k) (ToLower ''timeout'') \<or> Contains (ToLower v) (ToLower ''timeout'')))
   \<and> matchesQuery other_entry ''resource.labels.service_name=api''
   \<and> searchLogs_loop ''timeout'' 10 [Item other_entry] [] 0 = searchLogs_loop ''timeout'' 10 [] [] 0"
proof -
  let ?w = "\<lparr>clock = 1750000000000000000,
           responses = [(0, [Item other_entry, Item sample_entry, Item other_entry])],
           requests = []\<rparr>"
  let ?p = "\<lparr>Query = ''timeout'', StartTime = ''2025-06-15T00:00:00Z'', EndTime = [], Severity = [],
           Resource = [], LogName = [], PageSize = 10, OrderBy = ''timestamp desc''\<rparr>"
  let ?w' = "\<lparr>clock = 1750000000000000000, responses = [],
           requests = [buildOptimizedFilter 1750000000000000000 ?p]\<rparr>"
  have m1: "matchesQuery sample_entry ''timeout''" by code_simp
  have m2: "\<not> matchesQuery other_entry ''timeout''" by code_simp
  have st: "isStructuredQuery ''resource.labels.service_name=api''" by code_simp
  have run: "searchLogs ?w ?p = (Inr [toLogEntry sample_entry], ?w')"
    by (simp add: searchLogs_def Entries_def m1 m2)
  from search_client_side_filter [of ?w ?p "[toLogEntry sample_entry]" ?w'
         "''resource.labels.service_name=api''" other_entry] run st
  have a: "(isStructuredQuery ''timeout''
      \<or> Contains (ToLower (LogEntry.LogName (toLogEntry sample_entry))) (ToLower ''timeout'')
      \<or> Contains (ToLower (TextPayload (toLogEntry sample_entry))) (ToLower ''timeout'')
      \<or> (\<exists>js. JSONPayload (toLogEntry sample_entry) = Some js \<and> Contains (ToLower js) (ToLower ''timeout''))
      \<or> (\<exists>(k, v) \<in> set (LogEntry.Labels (toLogEntry sample_entry)).
            Contains (ToLower k) (ToLower ''timeout'') \<or> Contains (ToLower v) (ToLower ''timeout'')))
     \<and> matchesQuery other_entry ''resource.labels.service_name=api''"
    by simp
  from search_client_side_filter [of ?w ?p "[toLogEntry sample_entry]" ?w'
         "''timeout''" other_entry 0 10 "[]" "[]"] m2
  have b: "searchLogs_loop ''timeout'' 10 [Item other_entry] [] 0 = searchLogs_loop ''timeout'' 10 [] [] 0"
    by simp
  from run a b show ?thesis by simp
qed

section \<open>Properties of the cache key\<close>

lemma length_le_bytes: "length (le_bytes k n) = k"
  by (simp add: le_bytes_def)

lemma length_md5_Sum: "length (md5_Sum s) = 16"
  by (simp add: md5_Sum_def length_le_bytes split: prod.split)

lemma length_hex_bytes: "length (hex_bytes bs) = 2 * length bs"
  by (induction bs) (simp_all add: hex_bytes_def)

lemma hex_digits_table: "list_all (\<lambda>d. hex_digit d \<in> set ''0123456789abcdef'') [0..<16]"
  by code_simp

lemma hex_digit_range: "d < 16 \<Longrightarrow> hex_digit d \<in> hex_alphabet"
  using hex_digits_table unfolding hex_alphabet_def list_all_iff by simp

lemma le_bytes_range: "b \<in> set (le_bytes k n) \<Longrightarrow> b < 256"
  by (auto simp: le_bytes_def)

lemma md5_Sum_range: "b \<in> set (md5_Sum s) \<Longrightarrow> b < 256"
  by (auto simp: md5_Sum_def split: prod.splits dest: le_bytes_range)

lemma hex_bytes_digits: "(\<And>b. b \<in> set bs \<Longrightarrow> b < 256) \<Longrightarrow> set (hex_bytes bs) \<subseteq> hex_alphabet"
proof (induction bs)
  case Nil
  then show ?case by (simp add: hex_bytes_def)
next
  case (Cons b bs)
  have b: "b < 256" using Cons.prems by simp
  then have d: "b div 16 < 16" and m: "b mod 16 < 16" by arith+
  have h1: "hex_digit (b div 16) \<in> hex_alphabet" by (rule hex_digit_range [OF d])
  have h2: "hex_digit (b mod 16) \<in> hex_alphabet" by (rule hex_digit_range [OF m])
  have ih: "set (hex_bytes bs) \<subseteq> hex_alphabet" using Cons by simp
  have "hex_bytes (b # bs) = [hex_digit (b div 16), hex_digit (b mod 16)] @ hex_bytes bs"
    by (simp add: hex_bytes_def)
  with h1 h2 ih show ?case by simp
qed

text \<open>
  C9. Structurally equal requests have the same key, and a key is a string of exactly 32
  lower-case hexadecimal digits.
\<close>

theorem generate_key_deterministic:
  "R1 = R2 \<Longrightarrow>
   GenerateKey R1 = GenerateKey R2 \<and> length (GenerateKey R1) = 32 \<and>
   set (GenerateKey R1) \<subseteq> hex_alphabet"
proof -
  assume eq: "R1 = R2"
  have l: "length (GenerateKey R1) = 32"
    by (simp add: GenerateKey_def length_hex_bytes length_md5_Sum)
  have a: "set (GenerateKey R1) \<subseteq> hex_alphabet"
    unfolding GenerateKey_def by (rule hex_bytes_digits) (rule md5_Sum_range)
  from eq l a show ?thesis by simp
qed

theorem generate_key_deterministic_witness:
  "GenerateKey (ListRequest \<lparr>Filter = ''severity>=ERROR'', PageSize = 5 + 5, OrderBy = [] @ ''timestamp desc''\<rparr>)
   = GenerateKey (ListRequest \<lparr>Filter = ''severity>=ERROR'', PageSize = 10, OrderBy = ''timestamp desc''\<rparr>)
   \<and> length (GenerateKey (ListRequest \<lparr>Filter = ''severity>=ERROR'', PageSize = 10, OrderBy = ''timestamp desc''\<rparr>)) = 32"
proof -
  have eq: "ListRequest \<lparr>Filter = ''severity>=ERROR'', PageSize = 5 + 5, OrderBy = [] @ ''timestamp desc''\<rparr>
          = ListRequest \<lparr>Filter = ''severity>=ERROR'', PageSize = 10, OrderBy = ''timestamp desc''\<rparr>"
    by simp
  from generate_key_deterministic [OF eq] show ?thesis by simp
qed

text \<open>
  The key is not injective, MD5 apart: the \<^verbatim>\<open>%+v\<close> rendering writes strings as they are, so
  two different requests can have the same rendering.
\<close>

lemma Itoa_5: "Itoa 5 = ''5''" by code_simp
lemma Itoa_20: "Itoa 20 = ''20''" by code_simp

lemma format_collision:
  "format_plus_v (ListRequest \<lparr>Filter = ''a PageSize:5 OrderBy:b'', PageSize = 20, OrderBy = ''c''\<rparr>)
   = format_plus_v (ListRequest \<lparr>Filter = ''a'', PageSize = 5, OrderBy = ''b PageSize:20 OrderBy:c''\<rparr>)"
  by (simp add: Itoa_5 Itoa_20)

lemma key_collision:
  "GenerateKey (ListRequest \<lparr>Filter = ''a'', PageSize = 5, OrderBy = ''b PageSize:20 OrderBy:c''\<rparr>)
   = GenerateKey (ListRequest \<lparr>Filter = ''a PageSize:5 OrderBy:b'', PageSize = 20, OrderBy = ''c''\<rparr>)"
  unfolding GenerateKey_def by (simp only: format_collision)

section \<open>Properties of the tools\<close>

lemma backoff_first_success:
  assumes "operation s = (None, s')" and "0 \<le> maxRetries r"
  shows "ExecuteWithBackoff r operation s = (None, s', [Invoke])"
  unfolding ExecuteWithBackoff_def
  by (subst backoff_loop.simps) (simp add: assms)

lemma backoff_success_inv:
  assumes run: "backoff_loop r operation attempt lastErr s tr = (None, (es, w'), tr')"
    and inv: "\<forall>s s'. operation s = (None, s') \<longrightarrow> P (fst s')"
  shows "P es"
  using run inv
proof (induction r operation attempt lastErr s tr rule: backoff_loop.induct)
  case (1 r operation attempt lastErr s tr)
  note run = "1.prems"(1) and inv = "1.prems"(2)
  show ?case
  proof (cases "attempt \<le> maxRetries r")
    case False
    with run show ?thesis by (subst (asm) backoff_loop.simps) simp
  next
    case le: True
    obtain res v1 w1 where op: "operation s = (res, (v1, w1))"
      by (cases "operation s") auto
    show ?thesis
    proof (cases res)
      case None
      with run le op have "(v1, w1) = (es, w')"
        by (subst (asm) backoff_loop.simps) simp
      with inv op None show ?thesis by fastforce
    next
      case (Some err)
      show ?thesis
      proof (cases "isQuotaExceededError err")
        case False
        with run le op Some show ?thesis by (subst (asm) backoff_loop.simps) simp
      next
        case q: True
        show ?thesis
        proof (cases "attempt < maxRetries r")
          case True
          with run le op Some q
          have "backoff_loop r operation (attempt + 1) (Some err)
                  (v1, sleep (calculateBackoff r attempt) w1)
                  (tr @ [Invoke, Sleep (calculateBackoff r attempt)]) = (None, (es, w'), tr')"
            by (subst (asm) backoff_loop.simps) (simp add: Let_def)
          with "1.IH"(1) le op Some q True inv show ?thesis
            by simp
        next
          case False
          with run le op Some q
          have "backoff_loop r operation (attempt + 1) (Some err) (v1, w1) (tr @ [Invoke])
                  = (None, (es, w'), tr')"
            by (subst (asm) backoff_loop.simps) simp
          with "1.IH"(2) le op Some q False inv show ?thesis
            by simp
        qed
      qed
    qed
  qed
qed

lemma effectivePageSize_le: "effectivePageSize n \<le> 20"
  by (simp add: effectivePageSize_def Let_def)

lemma listLogEntries_loop_length:
  "listLogEntries_loop pageSize items entries count = Inr es \<Longrightarrow> count = int (length entries) \<Longrightarrow>
   int (length es) \<le> max count pageSize"
  by (induction pageSize items entries count rule: listLogEntries_loop.induct)
     (auto split: if_splits)

lemma searchLogs_loop_length:
  "searchLogs_loop query pageSize items entries count = Inr es \<Longrightarrow> count = int (length entries) \<Longrightarrow>
   int (length es) \<le> max count pageSize"
  by (induction query pageSize items entries count rule: searchLogs_loop.induct)
     (auto split: if_splits)

lemma listLogEntries_length:
  "listLogEntries w params = (Inr es, w') \<Longrightarrow> int (length es) \<le> max 0 (ListLogEntriesArgs.PageSize params)"
  using listLogEntries_loop_length [of "ListLogEntriesArgs.PageSize params" _ "[]" 0 es]
  by (auto simp: listLogEntries_def split: prod.splits)

lemma searchLogs_length:
  "searchLogs w params = (Inr es, w') \<Longrightarrow> int (length es) \<le> max 0 (SearchLogsArgs.PageSize params)"
  using searchLogs_loop_length [of "Query params" "SearchLogsArgs.PageSize params" _ "[]" 0 es]
  by (auto simp: searchLogs_def Let_def split: prod.splits)

lemma list_operation_length:
  "list_operation params s = (None, s') \<Longrightarrow> int (length (fst s')) \<le> max 0 (ListLogEntriesArgs.PageSize params)"
  by (auto simp: list_operation_def split: prod.splits sum.splits dest: listLogEntries_length)

lemma search_operation_length:
  "search_operation params s = (None, s') \<Longrightarrow> int (length (fst s')) \<le> max 0 (SearchLogsArgs.PageSize params)"
  by (auto simp: search_operation_def split: prod.splits sum.splits dest: searchLogs_length)

lemma list_backoff_length:
  assumes "ExecuteWithBackoff r (list_operation params) s = (None, (es, w'), tr)"
  shows "int (length es) \<le> max 0 (ListLogEntriesArgs.PageSize params)"
  using assms unfolding ExecuteWithBackoff_def
  by (rule backoff_success_inv) (simp add: list_operation_length)

lemma search_backoff_length:
  assumes "ExecuteWithBackoff r (search_operation params) s = (None, (es, w'), tr)"
  shows "int (length es) \<le> max 0 (SearchLogsArgs.PageSize params)"
  using assms unfolding ExecuteWithBackoff_def
  by (rule backoff_success_inv) (simp add: search_operation_length)

lemma LogCache_Get_cases:
  "LogCache_Get c now key = ((es, found), c') \<Longrightarrow>
   c' = c \<and> (if found then \<exists>entry. c key = Some entry \<and> es = Data entry else es = [])"
  by (auto simp: LogCache_Get_def split: option.splits if_splits)

lemma cache_bounded_Set:
  "cache_bounded c n \<Longrightarrow> int (length es) \<le> n \<Longrightarrow> cache_bounded (LogCache_Set c now key es ttl) n"
  by (simp add: cache_bounded_def LogCache_Set_def)

lemma cache_bounded_New: "cache_bounded NewLogCache n"
  by (simp add: cache_bounded_def NewLogCache_def)

lemma PageSize_list_defaults:
  "ListLogEntriesArgs.PageSize (list_defaults p) = effectivePageSize (ListLogEntriesArgs.PageSize p)"
  by (simp add: list_defaults_def Let_def)

lemma PageSize_search_defaults:
  "SearchLogsArgs.PageSize (search_defaults p) = effectivePageSize (SearchLogsArgs.PageSize p)"
  by (simp add: search_defaults_def Let_def)

lemma list_execute_bounded:
  assumes inv: "cache_bounded (ListLogEntriesTools.cache t) 20"
  shows "int (length (returned_entries (fst (ListLogEntriesTools_Execute t w p)))) \<le> 20
         \<and> cache_bounded (ListLogEntriesTools.cache (fst (snd (ListLogEntriesTools_Execute t w p)))) 20"
proof -
  let ?params = "list_defaults p"
  let ?key = "GenerateKey (ListRequest ?params)"
  obtain es found c where get: "LogCache_Get (ListLogEntriesTools.cache t) (clock w) ?key = ((es, found), c)"
    by (metis surj_pair)
  from LogCache_Get_cases [OF get]
  have c: "c = ListLogEntriesTools.cache t"
    and hit: "found \<Longrightarrow> \<exists>entry. ListLogEntriesTools.cache t ?key = Some entry \<and> es = Data entry"
    by (auto split: if_splits)
  show ?thesis
  proof (cases found)
    case True
    with hit inv have "int (length es) \<le> 20" by (auto simp: cache_bounded_def)
    with True get inv c show ?thesis
      by (simp add: ListLogEntriesTools_Execute_def Let_def returned_entries_def)
  next
    case False
    obtain res entries w' tr where
      run: "ExecuteWithBackoff (ListLogEntriesTools.rateLimiter t) (list_operation ?params) ([], w)
            = (res, (entries, w'), tr)"
      by (metis surj_pair)
    show ?thesis
    proof (cases res)
      case None
      with run have "int (length entries) \<le> max 0 (ListLogEntriesArgs.PageSize ?params)"
        by (auto dest: list_backoff_length)
      then have le: "int (length entries) \<le> 20"
        using effectivePageSize_le [of "ListLogEntriesArgs.PageSize p"]
        by (simp add: PageSize_list_defaults)
      with None False get run inv c show ?thesis
        by (simp add: ListLogEntriesTools_Execute_def Let_def returned_entries_def cache_bounded_Set)
    next
      case (Some err)
      with False get run inv c show ?thesis
        by (simp add: ListLogEntriesTools_Execute_def Let_def returned_entries_def)
    qed
  qed
qed

lemma list_execute_miss:
  assumes miss: "snd (fst (LogCache_Get (ListLogEntriesTools.cache t) (clock w)
                    (GenerateKey (ListRequest (list_defaults p))))) = False"
  shows "int (length (returned_entries (fst (ListLogEntriesTools_Execute t w p))))
         \<le> max 0 (effectivePageSize (ListLogEntriesArgs.PageSize p))"
proof -
  let ?params = "list_defaults p"
  let ?key = "GenerateKey (ListRequest ?params)"
  obtain es c where get: "LogCache_Get (ListLogEntriesTools.cache t) (clock w) ?key = ((es, False), c)"
    using miss by (cases "LogCache_Get (ListLogEntriesTools.cache t) (clock w) ?key") auto
  obtain res entries w' tr where
    run: "ExecuteWithBackoff (ListLogEntriesTools.rateLimiter t) (list_operation ?params) ([], w)
          = (res, (entries, w'), tr)"
    by (metis surj_pair)
  show ?thesis
  proof (cases res)
    case None
    with run have "int (length entries) \<le> max 0 (ListLogEntriesArgs.PageSize ?params)"
      by (auto dest: list_backoff_length)
    with None get run show ?thesis
      by (simp add: ListLogEntriesTools_Execute_def Let_def returned_entries_def PageSize_list_defaults)
  next
    case (Some err)
    with get run show ?thesis
      by (simp add: ListLogEntriesTools_Execute_def Let_def returned_entries_def)
  qed
qed

lemma search_execute_bounded:
  assumes inv: "cache_bounded (SearchLogsTool.cache t) 20"
  shows "int (length (returned_entries (fst (SearchLogsTool_Execute t w p)))) \<le> 20
         \<and> cache_bounded (SearchLogsTool.cache (fst (snd (SearchLogsTool_Execute t w p)))) 20"
proof (cases "Query p = []")
  case True
  with inv show ?thesis
    by (simp add: SearchLogsTool_Execute_def returned_entries_def)
next
  case q: False
  let ?params = "search_defaults p"
  let ?key = "GenerateKey (SearchRequest ?params)"
  obtain es found c where get: "LogCache_Get (SearchLogsTool.cache t) (clock w) ?key = ((es, found), c)"
    by (metis surj_pair)
  from LogCache_Get_cases [OF get]
  have c: "c = SearchLogsTool.cache t"
    and hit: "found \<Longrightarrow> \<exists>entry. SearchLogsTool.cache t ?key = Some entry \<and> es = Data entry"
    by (auto split: if_splits)
  show ?thesis
  proof (cases found)
    case True
    with hit inv have "int (length es) \<le> 20" by (auto simp: cache_bounded_def)
    with True q get inv c show ?thesis
      by (simp add: SearchLogsTool_Execute_def Let_def returned_entries_def)
  next
    case False
    obtain res entries w' tr where
      run: "ExecuteWithBackoff (SearchLogsTool.rateLimiter t) (search_operation ?params) ([], w)
            = (res, (entries, w'), tr)"
      by (metis surj_pair)
    show ?thesis
    proof (cases res)
      case None
      with run have "int (length entries) \<le> max 0 (SearchLogsArgs.PageSize ?params)"
        by (auto dest: search_backoff_length)
      then have le: "int (length entries) \<le> 20"
        using effectivePageSize_le [of "SearchLogsArgs.PageSize p"]
        by (simp add: PageSize_search_defaults)
      with None False q get run inv c show ?thesis
        by (simp add: SearchLogsTool_Execute_def Let_def returned_entries_def cache_bounded_Set)
    next
      case (Some err)
      with False q get run inv c show ?thesis
        by (simp add: SearchLogsTool_Execute_def Let_def returned_entries_def)
    qed
  qed
qed

lemma search_execute_miss:
  assumes miss: "snd (fst (LogCache_Get (SearchLogsTool.cache t) (clock w)
                    (GenerateKey (SearchRequest (search_defaults p))))) = False"
  shows "int (length (returned_entries (fst (SearchLogsTool_Execute t w p))))
         \<le> max 0 (effectivePageSize (SearchLogsArgs.PageSize p))"
proof (cases "Query p = []")
  case True
  then show ?thesis
    by (simp add: SearchLogsTool_Execute_def returned_entries_def)
next
  case q: False
  let ?params = "search_defaults p"
  let ?key = "GenerateKey (SearchRequest ?params)"
  obtain es c where get: "LogCache_Get (SearchLogsTool.cache t) (clock w) ?key = ((es, False), c)"
    using miss by (cases "LogCache_Get (SearchLogsTool.cache t) (clock w) ?key") auto
  obtain res entries w' tr where
    run: "ExecuteWithBackoff (SearchLogsTool.rateLimiter t) (search_operation ?params) ([], w)
          = (res, (entries, w'), tr)"
    by (metis surj_pair)
  show ?thesis
  proof (cases res)
    case None
    with run have "int (length entries) \<le> max 0 (SearchLogsArgs.PageSize ?params)"
      by (auto dest: search_backoff_length)
    with None q get run show ?thesis
      by (simp add: SearchLogsTool_Execute_def Let_def returned_entries_def PageSize_search_defaults)
  next
    case (Some err)
    with q get run show ?thesis
      by (simp add: SearchLogsTool_Execute_def Let_def returned_entries_def)
  qed
qed

text \<open>
  C1, as the code has it. The effective page size is 10 for a requested 0, the requested
  value from 1 to 20, and 20 for every larger request, in both tools. A call that misses the
  cache returns at most the effective page size entries (none when that is negative). A call
  that hits the cache returns the entries stored under its key; they are at most 20, as on
  every path: a cache that holds no result of more than 20 entries (as the new cache does) is
  left so by \<open>Execute\<close>, and \<open>Execute\<close> on such a cache returns at most 20 entries.
\<close>

theorem page_size_policy:
  "effectivePageSize 0 = 10
   \<and> (1 \<le> n \<and> n \<le> 20 \<longrightarrow> effectivePageSize n = n)
   \<and> (20 < n \<longrightarrow> effectivePageSize n = 20)
   \<and> SearchLogsArgs.PageSize (search_defaults sp) = effectivePageSize (SearchLogsArgs.PageSize sp)
   \<and> ListLogEntriesArgs.PageSize (list_defaults lp) = effectivePageSize (ListLogEntriesArgs.PageSize lp)
   \<and> (snd (fst (LogCache_Get (SearchLogsTool.cache st) (clock w)
                  (GenerateKey (SearchRequest (search_defaults sp))))) = False \<longrightarrow>
        int (length (returned_entries (fst (SearchLogsTool_Execute st w sp))))
          \<le> max 0 (effectivePageSize (SearchLogsArgs.PageSize sp)))
   \<and> (snd (fst (LogCache_Get (ListLogEntriesTools.cache lt) (clock w)
                  (GenerateKey (ListRequest (list_defaults lp))))) = False \<longrightarrow>
        int (length (returned_entries (fst (ListLogEntriesTools_Execute lt w lp))))
          \<le> max 0 (effectivePageSize (ListLogEntriesArgs.PageSize lp)))
   \<and> cache_bounded NewLogCache 20
   \<and> (cache_bounded (SearchLogsTool.cache st) 20 \<longrightarrow>
        int (length (returned_entries (fst (SearchLogsTool_Execute st w sp)))) \<le> 20
        \<and> cache_bounded (SearchLogsTool.cache (fst (snd (SearchLogsTool_Execute st w sp)))) 20)
   \<and> (cache_bounded (ListLogEntriesTools.cache lt) 20 \<longrightarrow>
        int (length (returned_entries (fst (ListLogEntriesTools_Execute lt w lp)))) \<le> 20
        \<and> cache_bounded (ListLogEntriesTools.cache (fst (snd (ListLogEntriesTools_Execute lt w lp)))) 20)"
proof -
  have a: "effectivePageSize 0 = 10" by (simp add: effectivePageSize_def)
  have b: "1 \<le> n \<and> n \<le> 20 \<longrightarrow> effectivePageSize n = n" by (simp add: effectivePageSize_def)
  have c: "20 < n \<longrightarrow> effectivePageSize n = 20" by (simp add: effectivePageSize_def)
  show ?thesis
    using a b c PageSize_search_defaults [of sp] PageSize_list_defaults [of lp]
      search_execute_miss [of st w sp] list_execute_miss [of lt w lp]
      cache_bounded_New [of 20]
      search_execute_bounded [of st w sp] list_execute_bounded [of lt w lp]
    by blast
qed

theorem page_size_policy_witness:
  "effectivePageSize 0 = 10 \<and> effectivePageSize 7 = 7 \<and> effectivePageSize 500 = 20
   \<and> int (length (returned_entries (fst (SearchLogsTool_Execute NewSearchLogsTool
          \<lparr>clock = 1750000000000000000,
           responses = [(0, [Item sample_entry, Item sample_entry, Item sample_entry, Item sample_entry])],
           requests = []\<rparr>
          \<lparr>Query = ''timeout'', StartTime = [], EndTime = [], Severity = [],
           Resource = [], LogName = [], PageSize = 3, OrderBy = []\<rparr>)))) \<le> 3
   \<and> int (length (returned_entries (fst (ListLogEntriesTools_Execute NewListLogEntriesTools
          \<lparr>clock = 1750000000000000000,
           responses = [(0, [Item sample_entry, Item sample_entry, Item sample_entry, Item sample_entry])],
           requests = []\<rparr>
          \<lparr>Filter = ''severity>=ERROR'', PageSize = 3, OrderBy = []\<rparr>)))) \<le> 3
   \<and> cache_bounded (SearchLogsTool.cache (fst (snd (SearchLogsTool_Execute NewSearchLogsTool
          \<lparr>clock = 1750000000000000000,
           responses = [(0, [Item sample_entry, Item sample_entry, Item sample_entry, Item sample_entry])],
           requests = []\<rparr>
          \<lparr>Query = ''timeout'', StartTime = [], EndTime = [], Severity = [],
           Resource = [], LogName = [], PageSize = 3, OrderBy = []\<rparr>)))) 20
   \<and> cache_bounded (ListLogEntriesTools.cache (fst (snd (ListLogEntriesTools_Execute NewListLogEntriesTools
          \<lparr>clock = 1750000000000000000,
           responses = [(0, [Item sample_entry, Item sample_entry, Item sample_entry, Item sample_entry])],
           requests = []\<rparr>
          \<lparr>Filter = ''severity>=ERROR'', PageSize = 3, OrderBy = []\<rparr>)))) 20"
proof -
  let ?w = "\<lparr>clock = 1750000000000000000,
           responses = [(0, [Item sample_entry, Item sample_entry, Item sample_entry, Item sample_entry])],
           requests = []\<rparr>"
  let ?sp = "\<lparr>Query = ''timeout'', StartTime = [], EndTime = [], Severity = [],
           Resource = [], LogName = [], PageSize = 3, OrderBy = []\<rparr>"
  let ?lp = "\<lparr>Filter = ''severity>=ERROR'', PageSize = 3, OrderBy = []\<rparr>"
  have si: "cache_bounded (SearchLogsTool.cache NewSearchLogsTool) 20"
    by (simp add: NewSearchLogsTool_def cache_bounded_def NewLogCache_def)
  have li: "cache_bounded (ListLogEntriesTools.cache NewListLogEntriesTools) 20"
    by (simp add: NewListLogEntriesTools_def cache_bounded_def NewLogCache_def)
  have sm: "snd (fst (LogCache_Get (SearchLogsTool.cache NewSearchLogsTool) (clock ?w)
                  (GenerateKey (SearchRequest (search_defaults ?sp))))) = False"
    by (simp add: NewSearchLogsTool_def NewLogCache_def LogCache_Get_def)
  have lm: "snd (fst (LogCache_Get (ListLogEntriesTools.cache NewListLogEntriesTools) (clock ?w)
                  (GenerateKey (ListRequest (list_defaults ?lp))))) = False"
    by (simp add: NewListLogEntriesTools_def NewLogCache_def LogCache_Get_def)
  have e3: "max 0 (effectivePageSize 3) = 3" by (simp add: effectivePageSize_def)
  from page_size_policy [of 7 ?sp ?lp NewSearchLogsTool ?w NewListLogEntriesTools]
       page_size_policy [of 500 ?sp ?lp NewSearchLogsTool ?w NewListLogEntriesTools]
       si li sm lm e3
  show ?thesis by simp
qed

text \<open>
  C1 as stated fails on a cache hit. The two requests below differ (page size 20 and page
  size 5) and have the same cache key; the first stores six entries, and the second, whose
  effective page size is 5, gets the six from the cache.
\<close>

lemma colliding_first_run:
  "ListLogEntriesTools_Execute NewListLogEntriesTools
     \<lparr>clock = 1750000000000000000,
      responses = [(0, [Item sample_entry, Item sample_entry, Item sample_entry,
                        Item sample_entry, Item sample_entry, Item sample_entry])],
      requests = []\<rparr>
     \<lparr>Filter = ''a PageSize:5 OrderBy:b'', PageSize = 20, OrderBy = ''c''\<rparr>
   = (\<lparr>Content = EntryArray [toLogEntry sample_entry, toLogEntry sample_entry, toLogEntry sample_entry,
                               toLogEntry sample_entry, toLogEntry sample_entry, toLogEntry sample_entry],
       IsError = False\<rparr>,
      \<lparr>ListLogEntriesTools.cache =
         LogCache_Set NewLogCache 1750000000000000000
           (GenerateKey (ListRequest \<lparr>Filter = ''a PageSize:5 OrderBy:b'', PageSize = 20, OrderBy = ''c''\<rparr>))
           [toLogEntry sample_entry, toLogEntry sample_entry, toLogEntry sample_entry,
            toLogEntry sample_entry, toLogEntry sample_entry, toLogEntry sample_entry]
           (2 * Minute),
       rateLimiter = NewRateLimiter\<rparr>,
      \<lparr>clock = 1750000000000000000, responses = [], requests = [''a PageSize:5 OrderBy:b'']\<rparr>)"
proof -
  let ?p = "\<lparr>Filter = ''a PageSize:5 OrderBy:b'', PageSize = 20, OrderBy = ''c''\<rparr>"
  let ?w = "\<lparr>clock = 1750000000000000000,
      responses = [(0, [Item sample_entry, Item sample_entry, Item sample_entry,
                        Item sample_entry, Item sample_entry, Item sample_entry])],
      requests = []\<rparr>"
  let ?six = "[toLogEntry sample_entry, toLogEntry sample_entry, toLogEntry sample_entry,
               toLogEntry sample_entry, toLogEntry sample_entry, toLogEntry sample_entry]"
  let ?w' = "\<lparr>clock = 1750000000000000000, responses = [], requests = [''a PageSize:5 OrderBy:b'']\<rparr>"
  have d: "list_defaults ?p = ?p"
    by (simp add: list_defaults_def effectivePageSize_def)
  have op: "list_operation ?p ([], ?w) = (None, (?six, ?w'))"
    by (simp add: list_operation_def listLogEntries_def Entries_def)
  have run: "ExecuteWithBackoff NewRateLimiter (list_operation ?p) ([], ?w) = (None, (?six, ?w'), [Invoke])"
    using backoff_first_success [of "list_operation ?p" "([], ?w)" "(?six, ?w')" NewRateLimiter] op
    by (simp add: NewRateLimiter_def)
  show ?thesis
    by (simp add: ListLogEntriesTools_Execute_def d NewListLogEntriesTools_def LogCache_Get_def
        NewLogCache_def run)
qed

theorem page_size_collision_counterexample:
  "effectivePageSize 5 = 5
   \<and> length (returned_entries (fst (ListLogEntriesTools_Execute
        (fst (snd (ListLogEntriesTools_Execute NewListLogEntriesTools
           \<lparr>clock = 1750000000000000000,
            responses = [(0, [Item sample_entry, Item sample_entry, Item sample_entry,
                              Item sample_entry, Item sample_entry, Item sample_entry])],
            requests = []\<rparr>
           \<lparr>Filter = ''a PageSize:5 OrderBy:b'', PageSize = 20, OrderBy = ''c''\<rparr>)))
        \<lparr>clock = 1750000001000000000, responses = [], requests = [''a PageSize:5 OrderBy:b'']\<rparr>
        \<lparr>Filter = ''a'', PageSize = 5, OrderBy = ''b PageSize:20 OrderBy:c''\<rparr>))) = 6"
proof -
  have d: "list_defaults \<lparr>Filter = ''a'', PageSize = 5, OrderBy = ''b PageSize:20 OrderBy:c''\<rparr>
           = \<lparr>Filter = ''a'', PageSize = 5, OrderBy = ''b PageSize:20 OrderBy:c''\<rparr>"
    by (simp add: list_defaults_def effectivePageSize_def)
  show ?thesis
    unfolding colliding_first_run
    by (simp add: ListLogEntriesTools_Execute_def d key_collision
        LogCache_Get_def LogCache_Set_def Minute_def Second_def returned_entries_def effectivePageSize_def)
qed

text \<open>
  C6, as the code has it. On a cache hit the search tool and the preset tool return, with no
  error and without a call to the remote store (the world is as before), an object whose
  \<^verbatim>\<open>cached\<close> is true, whose \<^verbatim>\<open>count\<close> is the number of cached entries and whose
  \<^verbatim>\<open>entries\<close> are the cached entries.
\<close>

theorem cache_hit_marker:
  "(Query sp \<noteq> [] \<and>
    fst (LogCache_Get (SearchLogsTool.cache st) (clock w)
           (GenerateKey (SearchRequest (search_defaults sp)))) = (es, True)
    \<longrightarrow> (\<exists>m. Content (fst (SearchLogsTool_Execute st w sp)) = Object m
              \<and> m ''cached'' = Some (JSONBool True)
              \<and> m ''count'' = Some (JSONNumber (int (length es)))
              \<and> m ''entries'' = Some (JSONEntries es))
        \<and> \<not> IsError (fst (SearchLogsTool_Execute st w sp))
        \<and> snd (snd (SearchLogsTool_Execute st w sp)) = w)
   \<and> (QueryName pp \<noteq> [] \<and>
      fst (LogCache_Get (PresetQueryTool.cache pt) (clock w) (GenerateKey (PresetRequest pp))) = (es, True)
      \<longrightarrow> (\<exists>m. Content (fst (PresetQueryTool_Execute pt w pp)) = Object m
                \<and> m ''cached'' = Some (JSONBool True)
                \<and> m ''count'' = Some (JSONNumber (int (length es)))
                \<and> m ''entries'' = Some (JSONEntries es))
          \<and> \<not> IsError (fst (PresetQueryTool_Execute pt w pp))
          \<and> snd (snd (PresetQueryTool_Execute pt w pp)) = w)"
proof (intro conjI impI)
  assume h: "Query sp \<noteq> [] \<and>
    fst (LogCache_Get (SearchLogsTool.cache st) (clock w)
           (GenerateKey (SearchRequest (search_defaults sp)))) = (es, True)"
  then obtain c where get: "LogCache_Get (SearchLogsTool.cache st) (clock w)
           (GenerateKey (SearchRequest (search_defaults sp))) = ((es, True), c)"
    by (cases "LogCache_Get (SearchLogsTool.cache st) (clock w)
           (GenerateKey (SearchRequest (search_defaults sp)))") auto
  from h get show "\<exists>m. Content (fst (SearchLogsTool_Execute st w sp)) = Object m
              \<and> m ''cached'' = Some (JSONBool True)
              \<and> m ''count'' = Some (JSONNumber (int (length es)))
              \<and> m ''entries'' = Some (JSONEntries es)"
    by (simp add: SearchLogsTool_Execute_def Let_def)
  from h get show "\<not> IsError (fst (SearchLogsTool_Execute st w sp))"
    by (simp add: SearchLogsTool_Execute_def Let_def)
  from h get show "snd (snd (SearchLogsTool_Execute st w sp)) = w"
    by (simp add: SearchLogsTool_Execute_def Let_def)
next
  assume h: "QueryName pp \<noteq> [] \<and>
      fst (LogCache_Get (PresetQueryTool.cache pt) (clock w) (GenerateKey (PresetRequest pp))) = (es, True)"
  then obtain c where get: "LogCache_Get (PresetQueryTool.cache pt) (clock w)
           (GenerateKey (PresetRequest pp)) = ((es, True), c)"
    by (cases "LogCache_Get (PresetQueryTool.cache pt) (clock w) (GenerateKey (PresetRequest pp))") auto
  from h get show "\<exists>m. Content (fst (PresetQueryTool_Execute pt w pp)) = Object m
                \<and> m ''cached'' = Some (JSONBool True)
                \<and> m ''count'' = Some (JSONNumber (int (length es)))
                \<and> m ''entries'' = Some (JSONEntries es)"
    by (simp add: PresetQueryTool_Execute_def Let_def)
  from h get show "\<not> IsError (fst (PresetQueryTool_Execute pt w pp))"
    by (simp add: PresetQueryTool_Execute_def Let_def)
  from h get show "snd (snd (PresetQueryTool_Execute pt w pp)) = w"
    by (simp add: PresetQueryTool_Execute_def Let_def)
qed

theorem cache_hit_marker_witness:
  "(\<exists>m. Content (fst (SearchLogsTool_Execute
            \<lparr>SearchLogsTool.cache = LogCache_Set NewLogCache 1750000000000000000
                       (GenerateKey (SearchRequest (search_defaults
                          \<lparr>Query = ''timeout'', StartTime = [], EndTime = [], Severity = [],
                           Resource = [], LogName = [], PageSize = 0, OrderBy = []\<rparr>)))
                       [toLogEntry sample_entry] (2 * Minute),
             rateLimiter = NewRateLimiter\<rparr>
            \<lparr>clock = 1750000060000000000, responses = [], requests = []\<rparr>
            \<lparr>Query = ''timeout'', StartTime = [], EndTime = [], Severity = [],
             Resource = [], LogName = [], PageSize = 0, OrderBy = []\<rparr>)) = Object m
        \<and> m ''cached'' = Some (JSONBool True)
        \<and> m ''count'' = Some (JSONNumber 1)
        \<and> m ''entries'' = Some (JSONEntries [toLogEntry sample_entry]))
   \<and> (\<exists>m. Content (fst (PresetQueryTool_Execute
            \<lparr>PresetQueryTool.cache = LogCache_Set NewLogCache 1750000000000000000
                       (GenerateKey (PresetRequest \<lparr>QueryName = ''recent_logs'', Parameters = []\<rparr>))
                       [toLogEntry sample_entry, toLogEntry other_entry] (2 * Minute),
             rateLimiter = NewRateLimiter\<rparr>
            \<lparr>clock = 1750000060000000000, responses = [], requests = []\<rparr>
            \<lparr>QueryName = ''recent_logs'', Parameters = []\<rparr>)) = Object m
        \<and> m ''cached'' = Some (JSONBool True)
        \<and> m ''count'' = Some (JSONNumber 2)
        \<and> m ''entries'' = Some (JSONEntries [toLogEntry sample_entry, toLogEntry other_entry]))"
proof -
  let ?p = "\<lparr>Query = ''timeout'', StartTime = [], EndTime = [], Severity = [],
             Resource = [], LogName = [], PageSize = 0, OrderBy = []\<rparr>"
  let ?t = "\<lparr>SearchLogsTool.cache = LogCache_Set NewLogCache 1750000000000000000
                       (GenerateKey (SearchRequest (search_defaults ?p)))
                       [toLogEntry sample_entry] (2 * Minute),
             rateLimiter = NewRateLimiter\<rparr>"
  let ?w = "\<lparr>clock = 1750000060000000000, responses = [], requests = []\<rparr>"
  let ?pp = "\<lparr>QueryName = ''recent_logs'', Parameters = []\<rparr>"
  let ?pt = "\<lparr>PresetQueryTool.cache = LogCache_Set NewLogCache 1750000000000000000
                       (GenerateKey (PresetRequest ?pp))
                       [toLogEntry sample_entry, toLogEntry other_entry] (2 * Minute),
             rateLimiter = NewRateLimiter\<rparr>"
  have hit: "Query ?p \<noteq> [] \<and>
     fst (LogCache_Get (SearchLogsTool.cache ?t) (clock ?w)
            (GenerateKey (SearchRequest (search_defaults ?p)))) = ([toLogEntry sample_entry], True)"
    by (simp add: LogCache_Get_def LogCache_Set_def Minute_def Second_def)
  have phit: "QueryName ?pp \<noteq> [] \<and>
     fst (LogCache_Get (PresetQueryTool.cache ?pt) (clock ?w) (GenerateKey (PresetRequest ?pp)))
       = ([toLogEntry sample_entry, toLogEntry other_entry], True)"
    by (simp add: LogCache_Get_def LogCache_Set_def Minute_def Second_def)
  from cache_hit_marker [THEN conjunct1, rule_format, OF hit]
       cache_hit_marker [THEN conjunct2, rule_format, OF phit]
  show ?thesis by simp
qed

text \<open>
  C6 as stated fails for the list tool: the call below is a cache hit, and its result is the
  array of the cached entries, with no \<^verbatim>\<open>cached\<close> marker and no count.
\<close>

theorem list_cache_hit_counterexample:
  "fst (LogCache_Get
          (LogCache_Set NewLogCache 1750000000000000000
             (GenerateKey (ListRequest (list_defaults \<lparr>Filter = ''severity>=ERROR'', PageSize = 0, OrderBy = []\<rparr>)))
             [toLogEntry sample_entry] (2 * Minute))
          1750000060000000000
          (GenerateKey (ListRequest (list_defaults \<lparr>Filter = ''severity>=ERROR'', PageSize = 0, OrderBy = []\<rparr>))))
     = ([toLogEntry sample_entry], True)
   \<and> fst (ListLogEntriesTools_Execute
            \<lparr>ListLogEntriesTools.cache = LogCache_Set NewLogCache 1750000000000000000
                       (GenerateKey (ListRequest (list_defaults \<lparr>Filter = ''severity>=ERROR'', PageSize = 0, OrderBy = []\<rparr>)))
                       [toLogEntry sample_entry] (2 * Minute),
             rateLimiter = NewRateLimiter\<rparr>
            \<lparr>clock = 1750000060000000000, responses = [], requests = []\<rparr>
            \<lparr>Filter = ''severity>=ERROR'', PageSize = 0, OrderBy = []\<rparr>)
     = \<lparr>Content = EntryArray [toLogEntry sample_entry], IsError = False\<rparr>"
  by (simp add: ListLogEntriesTools_Execute_def LogCache_Get_def LogCache_Set_def Minute_def Second_def)

end
